theory Spec2Isabelle
  imports Complex_Main
begin

unbundle bit_operations_syntax

section \<open>Python values used by \<^verbatim>\<open>obstacle_detector.py\<close>\<close>

text \<open>
  A Python \<^verbatim>\<open>str\<close> is a sequence of Unicode code points, so it is a list of
  naturals here; \<open>str_of\<close> embeds an ASCII literal. \<^verbatim>\<open>None\<close> is \<open>None\<close> of an
  option type.
\<close>

type_synonym pystr = "nat list"

definition str_of :: "string \<Rightarrow> pystr" where
  "str_of s = map of_char s"

text \<open>
  \<^verbatim>\<open>str.isspace\<close> of one code point, and \<^verbatim>\<open>str.strip()\<close> with no argument, which
  drops the white space at both ends and keeps the slice between.
\<close>

definition py_isspace :: "nat \<Rightarrow> bool" where
  "py_isspace c \<longleftrightarrow>
     (9 \<le> c \<and> c \<le> 13) \<or> (28 \<le> c \<and> c \<le> 32) \<or> c = 133 \<or> c = 160 \<or> c = 5760 \<or>
     (8192 \<le> c \<and> c \<le> 8202) \<or> c = 8232 \<or> c = 8233 \<or> c = 8239 \<or> c = 8287 \<or> c = 12288"

definition py_strip :: "pystr \<Rightarrow> pystr" where
  "py_strip s = rev (dropWhile py_isspace (rev (dropWhile py_isspace s)))"

text \<open>
  The two exception families the source tells apart: instances of \<^verbatim>\<open>Exception\<close>
  (class name and message, the message being what \<^verbatim>\<open>{e}\<close> formats) and
  \<^verbatim>\<open>KeyboardInterrupt\<close>, which \<^verbatim>\<open>except Exception\<close> does not catch.
\<close>

datatype exc = PyException pystr pystr | KeyboardInterrupt

section \<open>The outside world\<close>

text \<open>
  Every call that leaves the program is an event of the trace, in program order.
  \<open>Dispatch t\<close> is the one event that is not an external call: it marks the call of
  \<^verbatim>\<open>_analyze_and_speak\<close> in \<^verbatim>\<open>start\<close> and carries the clock reading \<^verbatim>\<open>current_time\<close>
  that was just stored in \<^verbatim>\<open>last_analysis\<close>. The argument of \<open>Print\<close> is the argument
  of \<^verbatim>\<open>print\<close>.
\<close>

datatype 'f event =
    Print pystr
  | Configure pystr
  | TtsInit
  | TtsSetRate int
  | TtsSay pystr
  | TtsRunAndWait
  | GenerativeModel pystr
  | GenerateContent pystr pystr pystr
  | VideoCapture int
  | CapRead
  | CapRelease
  | Imshow pystr 'f
  | WaitKey int
  | DestroyAllWindows
  | Dispatch real

text \<open>
  What the collaborators answer. \<^verbatim>\<open>pyttsx3.init()\<close> or \<^verbatim>\<open>setProperty\<close> may raise;
  \<^verbatim>\<open>engine.say\<close> or \<^verbatim>\<open>engine.runAndWait\<close> may raise; \<^verbatim>\<open>generate_content\<close> returns a
  response or raises; reading \<^verbatim>\<open>response.text\<close> finds no such attribute, or \<^verbatim>\<open>None\<close>, or a
  string, or raises (the accessor is a property of the client library, which raises
  for a response that holds no text); \<^verbatim>\<open>cap.read()\<close> returns a frame, or
  \<^verbatim>\<open>ret = False\<close>, or is interrupted; \<^verbatim>\<open>cv2.waitKey\<close> returns a key code or is
  interrupted.
\<close>

datatype init_outcome = InitOk | InitRaises exc | SetPropertyRaises exc

datatype tts_outcome = Played | SayRaises exc | RunRaises exc

datatype response_text = NoTextAttr | TextNone | Text pystr | TextRaises exc

datatype remote_outcome = Responded response_text | RemoteRaises exc

datatype 'f read_outcome = Frame 'f | NoFrame | ReadRaises exc

datatype key_outcome = Key int | KeyRaises exc

text \<open>
  Library functions that depend on their argument only: \<^verbatim>\<open>cv2.imencode('.jpg', frame)\<close>,
  which returns a success flag and a buffer, or raises (as it does for an empty
  frame); \<^verbatim>\<open>base64.b64encode(...).decode("utf-8")\<close>; and the formatting of the interval
  inside an f-string.
\<close>

record 'f libs =
  imencode :: "'f \<Rightarrow> exc + bool \<times> nat list"
  b64encode :: "nat list \<Rightarrow> pystr"
  format_interval :: "real \<Rightarrow> pystr"

section \<open>Configuration (module level)\<close>

type_synonym environ = "pystr \<rightharpoonup> pystr"

definition truthy :: "pystr option \<Rightarrow> bool" where
  "truthy v = (case v of None \<Rightarrow> False | Some s \<Rightarrow> s \<noteq> [])"

definition py_or :: "pystr option \<Rightarrow> pystr option \<Rightarrow> pystr option" where
  "py_or x y = (if truthy x then x else y)"

definition API_KEY :: "environ \<Rightarrow> pystr option" where
  "API_KEY env =
     py_or (py_or (env (str_of ''GEMINI_API_KEY'')) (env (str_of ''GOOGLE_API_KEY'')))
           (env (str_of ''OPENAI_API_KEY''))"

definition missing_key_message :: pystr where
  "missing_key_message =
     [10060] @ str_of '' GEMINI_API_KEY not found. Set GEMINI_API_KEY in your environment or .env file.''
     @ [10] @ str_of ''Example: GEMINI_API_KEY=your_key_here'' @ [10]"

definition MODEL_NAME :: pystr where
  "MODEL_NAME = str_of ''gemini-2.5-flash''"

section \<open>Speaker\<close>

record speaker =
  enabled :: bool

fun Speaker_init :: "int \<Rightarrow> init_outcome \<Rightarrow> 'f event list \<times> (exc + speaker)" where
  "Speaker_init rate InitOk = ([TtsInit, TtsSetRate rate], Inr \<lparr>enabled = True\<rparr>)"
| "Speaker_init rate (InitRaises (PyException c m)) =
     ([TtsInit, Print ([9888, 65039] @ str_of '' TTS initialization failed: '' @ m)],
      Inr \<lparr>enabled = False\<rparr>)"
| "Speaker_init rate (InitRaises KeyboardInterrupt) = ([TtsInit], Inl KeyboardInterrupt)"
| "Speaker_init rate (SetPropertyRaises (PyException c m)) =
     ([TtsInit, TtsSetRate rate,
       Print ([9888, 65039] @ str_of '' TTS initialization failed: '' @ m)],
      Inr \<lparr>enabled = False\<rparr>)"
| "Speaker_init rate (SetPropertyRaises KeyboardInterrupt) =
     ([TtsInit, TtsSetRate rate], Inl KeyboardInterrupt)"

text \<open>The \<^verbatim>\<open>try\<close> block of \<^verbatim>\<open>speak\<close> with its \<^verbatim>\<open>except Exception\<close> handler.\<close>

fun playback :: "pystr \<Rightarrow> tts_outcome \<Rightarrow> 'f event list \<times> exc option" where
  "playback text Played = ([TtsSay text, TtsRunAndWait], None)"
| "playback text (SayRaises (PyException c m)) =
     ([TtsSay text, Print (str_of ''TTS Error: '' @ m)], None)"
| "playback text (SayRaises KeyboardInterrupt) = ([TtsSay text], Some KeyboardInterrupt)"
| "playback text (RunRaises (PyException c m)) =
     ([TtsSay text, TtsRunAndWait, Print (str_of ''TTS Error: '' @ m)], None)"
| "playback text (RunRaises KeyboardInterrupt) =
     ([TtsSay text, TtsRunAndWait], Some KeyboardInterrupt)"

definition speak :: "speaker \<Rightarrow> pystr \<Rightarrow> bool \<Rightarrow> tts_outcome \<Rightarrow> 'f event list \<times> exc option" where
  "speak sp text print_text w =
     (let echo = (if print_text then [Print (str_of ''AI: '' @ text)] else [])
      in if enabled sp
         then (case playback text w of (ev, r) \<Rightarrow> (echo @ ev, r))
         else (echo, None))"

text \<open>A call \<^verbatim>\<open>speak(text)\<close>, with \<^verbatim>\<open>print_text\<close> left at its default \<^verbatim>\<open>True\<close>.\<close>

definition speak_default :: "speaker \<Rightarrow> pystr \<Rightarrow> tts_outcome \<Rightarrow> 'f event list \<times> exc option" where
  "speak_default sp text w = speak sp text True w"

section \<open>ObstacleDetector\<close>

record detector =
  model :: pystr
  prompt :: pystr

definition ObstacleDetector_init :: "pystr \<Rightarrow> 'f event list \<times> detector" where
  "ObstacleDetector_init model_name =
     ([GenerativeModel model_name],
      \<lparr>model = model_name,
       prompt =
         str_of ''You are assisting a visually impaired person. ''
         @ str_of ''Analyze this image and describe any obstacles directly in the person''
         @ [39] @ str_of ''s path. ''
         @ str_of ''If there are obstacles, specify their position (left, center, or right). ''
         @ str_of ''Be concise and actionable. Examples: '' @ [39] @ str_of ''Clear path ahead''
         @ [39] @ str_of '', ''
         @ [39] @ str_of ''Obstacle on right, move left'' @ [39] @ str_of '', ''
         @ [39] @ str_of ''Person directly ahead, stop'' @ [39] @ str_of ''.''\<rparr>)"

definition encode_error :: exc where
  "encode_error = PyException (str_of ''ValueError'') (str_of ''Failed to encode frame'')"

definition no_response :: pystr where
  "no_response = str_of ''No clear response from AI.''"

text \<open>
  \<^verbatim>\<open>hasattr(response, "text") and response.text\<close>, then \<^verbatim>\<open>response.text.strip()\<close>.
  \<^verbatim>\<open>hasattr\<close> answers false when reading the attribute raises \<^verbatim>\<open>AttributeError\<close> and lets
  every other exception through (classes are compared by name; subclasses of
  \<^verbatim>\<open>AttributeError\<close> are not modelled). The test is false as well when the text is
  \<^verbatim>\<open>None\<close> or the empty string.
\<close>

fun response_result :: "response_text \<Rightarrow> exc + pystr" where
  "response_result (Text t) = Inr (if t \<noteq> [] then py_strip t else no_response)"
| "response_result NoTextAttr = Inr no_response"
| "response_result TextNone = Inr no_response"
| "response_result (TextRaises (PyException c m)) =
     (if c = str_of ''AttributeError'' then Inr no_response else Inl (PyException c m))"
| "response_result (TextRaises KeyboardInterrupt) = Inl KeyboardInterrupt"

definition analyze_frame ::
  "'f libs \<Rightarrow> detector \<Rightarrow> 'f \<Rightarrow> remote_outcome \<Rightarrow> 'f event list \<times> (exc + pystr)" where
  "analyze_frame L d frame w =
     (case imencode L frame of
        Inl e \<Rightarrow> ([], Inl e)
      | Inr (success, encoded_img) \<Rightarrow>
          if \<not> success then ([], Inl encode_error)
          else
            let image_base64 = b64encode L encoded_img;
                call = GenerateContent (prompt d) (str_of ''image/jpeg'') image_base64
            in (case w of
                  RemoteRaises e \<Rightarrow> ([call], Inl e)
                | Responded r \<Rightarrow> ([call], response_result r)))"

text \<open>A frame encodes when \<^verbatim>\<open>cv2.imencode\<close> returns with the success flag set.\<close>

definition encodes :: "'f libs \<Rightarrow> 'f \<Rightarrow> bool" where
  "encodes L frame = (case imencode L frame of Inr (success, _) \<Rightarrow> success | Inl _ \<Rightarrow> False)"

section \<open>AssistiveAI\<close>

text \<open>
  \<open>cap\<close> is \<^verbatim>\<open>self.cap\<close>: \<open>None\<close> until \<^verbatim>\<open>start\<close> stores the capture object made for a
  camera id. A capture object is truthy whether or not it is open.
\<close>

record app =
  camera_id :: int
  interval :: real
  speaker :: speaker
  detector :: detector
  cap :: "int option"

definition AssistiveAI_init ::
  "int \<Rightarrow> real \<Rightarrow> init_outcome \<Rightarrow> 'f event list \<times> (exc + app)" where
  "AssistiveAI_init cam_id ival w =
     (case Speaker_init 170 w of
        (ev, Inl e) \<Rightarrow> (ev, Inl e)
      | (ev, Inr sp) \<Rightarrow>
          (case ObstacleDetector_init MODEL_NAME of (ev', d) \<Rightarrow>
             (ev @ ev',
              Inr \<lparr>camera_id = cam_id, interval = ival, speaker = sp, detector = d,
                   cap = None\<rparr>)))"

definition analysis_error_phrase :: pystr where
  "analysis_error_phrase = str_of ''Error analyzing the scene.''"

text \<open>
  \<^verbatim>\<open>_analyze_and_speak\<close>. The handler catches instances of \<^verbatim>\<open>Exception\<close> only. The
  \<^verbatim>\<open>speak\<close> call of the \<^verbatim>\<open>try\<close> block raises nothing the handler would catch (lemma
  \<open>speak_no_Exception\<close> below), so what it raises goes to the caller.
\<close>

definition analyze_and_speak ::
  "'f libs \<Rightarrow> app \<Rightarrow> 'f \<Rightarrow> remote_outcome \<Rightarrow> tts_outcome \<Rightarrow> 'f event list \<times> exc option" where
  "analyze_and_speak L a frame wr wt =
     (let announce = Print ([10] @ str_of ''[ANALYZING] Processing frame...'')
      in (case analyze_frame L (detector a) frame wr of
            (ev, Inr result) \<Rightarrow>
              (case speak_default (speaker a) result wt of (ev', r) \<Rightarrow> (announce # ev @ ev', r))
          | (ev, Inl (PyException c m)) \<Rightarrow>
              (case speak_default (speaker a) analysis_error_phrase wt of (ev', r) \<Rightarrow>
                 (announce # ev @ [Print (str_of ''[WARNING] Analysis error: '' @ m)] @ ev', r))
          | (ev, Inl KeyboardInterrupt) \<Rightarrow> (announce # ev, Some KeyboardInterrupt)))"

text \<open>
  One pass through the body of \<^verbatim>\<open>while True\<close>. A tick holds what the world answers
  during that pass: the frame read, the clock, the remote service and the speech
  engine if an analysis is dispatched, the key, and the speech engine if the
  shutdown notice is spoken.
\<close>

record 'f tick =
  t_read :: "'f read_outcome"
  t_now :: real
  t_remote :: remote_outcome
  t_say :: tts_outcome
  t_key :: key_outcome
  t_bye :: tts_outcome

datatype flow = Continue | Break | Raise exc

definition window_title :: pystr where
  "window_title = str_of ''Assistive AI - Live Feed (Press Q to quit)''"

definition is_quit :: "int \<Rightarrow> bool" where
  "is_quit k \<longleftrightarrow> k AND 0xFF = of_char CHR ''q''"

definition shutdown_notice :: pystr where
  "shutdown_notice = str_of ''Shutting down assistive AI system.''"

text \<open>The result is the events, the new \<^verbatim>\<open>last_analysis\<close> and how the pass ends.\<close>

definition iteration ::
  "'f libs \<Rightarrow> app \<Rightarrow> real \<Rightarrow> 'f tick \<Rightarrow> 'f event list \<times> real \<times> flow" where
  "iteration L a last_analysis tk =
     (case t_read tk of
        ReadRaises e \<Rightarrow> ([CapRead], last_analysis, Raise e)
      | NoFrame \<Rightarrow>
          ([CapRead, Print (str_of ''[ERROR] Could not read frame.'')], last_analysis, Break)
      | Frame frame \<Rightarrow>
          let current_time = t_now tk;
              due = (current_time - last_analysis \<ge> interval a);
              last_analysis' = (if due then current_time else last_analysis);
              analysed =
                (if due
                 then (case analyze_and_speak L a frame (t_remote tk) (t_say tk) of
                         (ev, r) \<Rightarrow> (Dispatch current_time # ev, r))
                 else ([], None))
          in (case analysed of
                (ev, Some e) \<Rightarrow> (CapRead # ev, last_analysis', Raise e)
              | (ev, None) \<Rightarrow>
                  let shown = CapRead # ev @ [Imshow window_title frame, WaitKey 1]
                  in (case t_key tk of
                        KeyRaises e \<Rightarrow> (shown, last_analysis', Raise e)
                      | Key k \<Rightarrow>
                          if is_quit k
                          then (case speak_default (speaker a) shutdown_notice (t_bye tk) of
                                  (ev', None) \<Rightarrow> (shown @ ev', last_analysis', Break)
                                | (ev', Some e) \<Rightarrow> (shown @ ev', last_analysis', Raise e))
                          else (shown, last_analysis', Continue))))"

text \<open>
  The loop over the ticks the world supplies. \<open>Continue\<close> as the result means that
  the ticks ran out with the loop still polling: the loop has not ended.
\<close>

fun loop :: "'f libs \<Rightarrow> app \<Rightarrow> real \<Rightarrow> 'f tick list \<Rightarrow> 'f event list \<times> flow" where
  "loop L a last_analysis [] = ([], Continue)"
| "loop L a last_analysis (tk # rest) =
     (case iteration L a last_analysis tk of
        (ev, last_analysis', Continue) \<Rightarrow>
          (case loop L a last_analysis' rest of (ev', x) \<Rightarrow> (ev @ ev', x))
      | (ev, last_analysis', Break) \<Rightarrow> (ev, Break)
      | (ev, last_analysis', Raise e) \<Rightarrow> (ev, Raise e))"

definition rule50 :: pystr where
  "rule50 = replicate 50 (of_char CHR ''='')"

definition shutdown_banner :: pystr where
  "shutdown_banner = str_of ''SYSTEM SHUTDOWN COMPLETE''"

definition cleanup :: "app \<Rightarrow> 'f event list" where
  "cleanup a =
     (if cap a \<noteq> None then [CapRelease] else [])
     @ [DestroyAllWindows, Print ([10] @ rule50), Print shutdown_banner, Print rule50]"

text \<open>
  How a run of \<^verbatim>\<open>start\<close> stands: it returned, it raised, or the ticks ran out while
  the loop was still polling.
\<close>

datatype run = Returns | Raises exc | Unfinished

definition activation_notice :: pystr where
  "activation_notice = str_of ''Assistive AI system activated.''"

definition start_banner :: "'f libs \<Rightarrow> app \<Rightarrow> 'f event list" where
  "start_banner L a =
     [Print rule50, Print (str_of ''ASSISTIVE AI SYSTEM - ACTIVE''), Print rule50,
      Print (str_of ''Analyzing frames every '' @ format_interval L (interval a)
             @ str_of '' seconds''),
      Print (str_of ''Press '' @ [39] @ str_of ''Q'' @ [39] @ str_of '' to quit'' @ [10])]"

text \<open>
  \<^verbatim>\<open>start\<close>. \<open>opened\<close> is what \<^verbatim>\<open>isOpened()\<close> answers, \<open>w_act\<close> the speech engine during
  the activation notice, \<open>w_int\<close> the speech engine during the interruption notice.
  The \<^verbatim>\<open>finally\<close> clause runs \<open>cleanup\<close> on every way out of the \<^verbatim>\<open>try\<close> block.
\<close>

definition start ::
  "'f libs \<Rightarrow> app \<Rightarrow> bool \<Rightarrow> tts_outcome \<Rightarrow> 'f tick list \<Rightarrow> tts_outcome \<Rightarrow> 'f event list \<times> run" where
  "start L a opened w_act ticks w_int =
     (let a' = a\<lparr>cap := Some (camera_id a)\<rparr>;
          opening = [VideoCapture (camera_id a)]
      in if \<not> opened
         then (opening @ [Print (str_of ''[ERROR] Could not open webcam.'')], Returns)
         else
           (case speak_default (speaker a') activation_notice w_act of
              (ev, Some e) \<Rightarrow> (opening @ start_banner L a' @ ev, Raises e)
            | (ev, None) \<Rightarrow>
                let before = opening @ start_banner L a' @ ev
                in (case loop L a' 0 ticks of
                      (evl, Continue) \<Rightarrow> (before @ evl, Unfinished)
                    | (evl, Break) \<Rightarrow> (before @ evl @ cleanup a', Returns)
                    | (evl, Raise KeyboardInterrupt) \<Rightarrow>
                        (case speak_default (speaker a') (str_of ''System interrupted.'') w_int of
                           (evi, r) \<Rightarrow>
                             (before @ evl
                              @ [Print ([10] @ str_of ''[INTERRUPTED] User stopped the system'')]
                              @ evi @ cleanup a',
                              (case r of None \<Rightarrow> Returns | Some e \<Rightarrow> Raises e)))
                    | (evl, Raise (PyException c m)) \<Rightarrow>
                        (before @ evl @ cleanup a', Raises (PyException c m)))))"

section \<open>Entry point\<close>

record 'f world =
  w_tts_init :: init_outcome
  w_opened :: bool
  w_activation :: tts_outcome
  w_ticks :: "'f tick list"
  w_interrupted :: tts_outcome

definition main :: "'f libs \<Rightarrow> 'f world \<Rightarrow> 'f event list \<times> run" where
  "main L W =
     (case AssistiveAI_init 0 3 (w_tts_init W) of
        (ev, Inl e) \<Rightarrow> (ev, Raises e)
      | (ev, Inr a) \<Rightarrow>
          (case start L a (w_opened W) (w_activation W) (w_ticks W) (w_interrupted W) of
             (ev', r) \<Rightarrow> (ev @ ev', r)))"

text \<open>
  The module run as a script, with \<open>env\<close> the process environment after the optional
  \<^verbatim>\<open>load_dotenv()\<close>: the credential check, \<^verbatim>\<open>genai.configure\<close>, then \<^verbatim>\<open>main()\<close>.
\<close>

definition script :: "'f libs \<Rightarrow> environ \<Rightarrow> 'f world \<Rightarrow> 'f event list \<times> run" where
  "script L env W =
     (case API_KEY env of
        None \<Rightarrow> ([], Raises (PyException (str_of ''ValueError'') missing_key_message))
      | Some k \<Rightarrow>
          if k = [] then ([], Raises (PyException (str_of ''ValueError'') missing_key_message))
          else (case main L W of (ev, r) \<Rightarrow> (Configure k # ev, r)))"

section \<open>Reference definitions and fixtures\<close>

text \<open>
  The credential as the specification words it: the first non-empty value among the
  alternatives, in order. This one follows the specification, to be compared with
  \<open>API_KEY\<close> above.
\<close>

definition first_non_empty :: "pystr option list \<Rightarrow> pystr option" where
  "first_non_empty vs = (case filter truthy vs of [] \<Rightarrow> None | v # _ \<Rightarrow> v)"

text \<open>The clock readings of the dispatches of a trace, in order.\<close>

fun dispatch_times :: "'f event list \<Rightarrow> real list" where
  "dispatch_times [] = []"
| "dispatch_times (Dispatch t # es) = t # dispatch_times es"
| "dispatch_times (e # es) = dispatch_times es"

text \<open>
  Concrete collaborators for the instances below: frames are numbers, for frame \<open>0\<close>
  the encoder reports failure, for frame \<open>2\<close> it raises, and the application is the
  one \<^verbatim>\<open>main\<close> builds when the speech engine starts.
\<close>

definition cv2_error :: exc where
  "cv2_error = PyException (str_of ''cv2.error'') (str_of ''empty image'')"

definition fixture_libs :: "nat libs" where
  "fixture_libs =
     \<lparr>imencode = (\<lambda>f. if f = 2 then Inl cv2_error else Inr (f \<noteq> 0, [f])),
      b64encode = (\<lambda>bs. bs), format_interval = (\<lambda>r. [])\<rparr>"

definition fixture_app :: app where
  "fixture_app = \<lparr>camera_id = 0, interval = 3, speaker = \<lparr>enabled = True\<rparr>,
                   detector = \<lparr>model = MODEL_NAME, prompt = str_of ''describe''\<rparr>,
                   cap = None\<rparr>"

definition fixture_world :: "nat world" where
  "fixture_world = \<lparr>w_tts_init = InitOk, w_opened = True, w_activation = Played,
                     w_ticks = [], w_interrupted = Played\<rparr>"

definition fixture_env :: environ where
  "fixture_env = [str_of ''GEMINI_API_KEY'' \<mapsto> [], str_of ''GOOGLE_API_KEY'' \<mapsto> str_of ''g1'',
                  str_of ''OPENAI_API_KEY'' \<mapsto> str_of ''o1'']"

text \<open>
  Names for parts of one pass of the loop, used to state results: the events of the
  rate-limited analysis, the value \<^verbatim>\<open>last_analysis\<close> has afterwards, and the condition
  that the pass reaches the key check (no analysis was due, or the analysis returned).
\<close>

definition analysed_events :: "'f libs \<Rightarrow> app \<Rightarrow> real \<Rightarrow> 'f tick \<Rightarrow> 'f \<Rightarrow> 'f event list" where
  "analysed_events L a last_analysis tk frame =
     (if t_now tk - last_analysis \<ge> interval a
      then Dispatch (t_now tk) # fst (analyze_and_speak L a frame (t_remote tk) (t_say tk))
      else [])"

definition next_last :: "app \<Rightarrow> real \<Rightarrow> 'f tick \<Rightarrow> real" where
  "next_last a last_analysis tk =
     (if t_now tk - last_analysis \<ge> interval a then t_now tk else last_analysis)"

definition analysis_returns :: "'f libs \<Rightarrow> app \<Rightarrow> real \<Rightarrow> 'f tick \<Rightarrow> 'f \<Rightarrow> bool" where
  "analysis_returns L a last_analysis tk frame \<longleftrightarrow>
     t_now tk - last_analysis < interval a
     \<or> snd (analyze_and_speak L a frame (t_remote tk) (t_say tk)) = None"

definition tick_at :: "real \<Rightarrow> int \<Rightarrow> nat tick" where
  "tick_at now key = \<lparr>t_read = Frame 1, t_now = now,
                       t_remote = Responded (Text (str_of ''Stop'')), t_say = Played,
                       t_key = Key key, t_bye = Played\<rparr>"

definition network_error :: exc where
  "network_error = PyException (str_of ''ConnectionError'') (str_of ''timed out'')"

definition failing_tick :: "real \<Rightarrow> int \<Rightarrow> nat tick" where
  "failing_tick now key = (tick_at now key)\<lparr>t_remote := RemoteRaises network_error\<rparr>"

definition four_seconds :: "nat tick list" where
  "four_seconds = [tick_at 100 (- 1), tick_at 101 (- 1), tick_at 102 (- 1), tick_at 103 (- 1)]"

text \<open>
  The events of \<^verbatim>\<open>cleanup\<close> that matter for shutdown: the release of the camera, the
  closing of the windows and the banner line. \<open>teardown_events\<close> is what \<^verbatim>\<open>cleanup\<close>
  emits once \<^verbatim>\<open>self.cap\<close> is set. A tick is \<open>exiting\<close> when its frame read fails or is
  interrupted, or its key check is interrupted or sees the quit key.
\<close>

fun is_teardown :: "'f event \<Rightarrow> bool" where
  "is_teardown CapRelease = True"
| "is_teardown DestroyAllWindows = True"
| "is_teardown (Print s) = (s = shutdown_banner)"
| "is_teardown e = False"

definition no_teardown :: "'f event list \<Rightarrow> bool" where
  "no_teardown ev = list_all (\<lambda>e. \<not> is_teardown e) ev"

definition exiting :: "'f tick \<Rightarrow> bool" where
  "exiting tk \<longleftrightarrow>
     t_read tk = NoFrame \<or> (\<exists>e. t_read tk = ReadRaises e) \<or> (\<exists>e. t_key tk = KeyRaises e)
     \<or> (\<exists>k. t_key tk = Key k \<and> is_quit k)"

definition quit_run :: "nat tick list" where
  "quit_run = [tick_at 100 (- 1), tick_at 101 113]"

definition read_failure_run :: "nat tick list" where
  "read_failure_run = [tick_at 100 (- 1), (tick_at 101 (- 1))\<lparr>t_read := NoFrame\<rparr>]"

definition interrupted_run :: "nat tick list" where
  "interrupted_run = [tick_at 100 (- 1), (tick_at 101 (- 1))\<lparr>t_key := KeyRaises KeyboardInterrupt\<rparr>]"

definition teardown_events :: "'f event list" where
  "teardown_events =
     [CapRelease, DestroyAllWindows, Print ([10] @ rule50),
      Print (str_of ''SYSTEM SHUTDOWN COMPLETE''), Print rule50]"

text \<open>The playback is interrupted from the keyboard.\<close>

fun interrupts :: "tts_outcome \<Rightarrow> bool" where
  "interrupts (SayRaises KeyboardInterrupt) = True"
| "interrupts (RunRaises KeyboardInterrupt) = True"
| "interrupts w = False"

section \<open>Strings and key codes\<close>

lemma str_of_Nil [simp]: "str_of [] = []"
  by (simp add: str_of_def)

lemma str_of_Cons [simp]: "str_of (c # cs) = of_char c # str_of cs"
  by (simp add: str_of_def)

lemma and_255: "(k::int) AND 0xFF = k mod 256"
proof -
  have "(0xFF::int) = mask 8" by (simp add: mask_eq_exp_minus_1)
  then have "k AND 0xFF = take_bit 8 k" by (simp add: take_bit_eq_mask)
  then show ?thesis by (simp add: take_bit_eq_mod)
qed

lemma is_quit_mod: "is_quit k \<longleftrightarrow> k mod 256 = 113"
  by (simp add: is_quit_def and_255)

text \<open>What \<open>py_strip\<close> removes on the right is white space, and so is what it removes
  on the left; what it keeps neither starts nor ends with white space.\<close>

lemma strip_right:
  "\<exists>r. py_strip s @ r = dropWhile py_isspace s \<and> (\<forall>c\<in>set r. py_isspace c)"
proof -
  define m where "m = dropWhile py_isspace s"
  define r where "r = rev (takeWhile py_isspace (rev m))"
  have "rev (takeWhile py_isspace (rev m) @ dropWhile py_isspace (rev m)) = rev (rev m)"
    by (simp only: takeWhile_dropWhile_id)
  then have 1: "py_strip s @ r = dropWhile py_isspace s"
    unfolding py_strip_def r_def m_def by (simp only: rev_append rev_rev_ident)
  have 2: "\<forall>c\<in>set r. py_isspace c"
    unfolding r_def by (auto dest: set_takeWhileD)
  from 1 2 show ?thesis by (intro exI conjI)
qed

lemma strip_decomp:
  "\<exists>l r. s = l @ py_strip s @ r \<and> (\<forall>c\<in>set l. py_isspace c) \<and> (\<forall>c\<in>set r. py_isspace c)"
proof -
  obtain r where r: "py_strip s @ r = dropWhile py_isspace s" "\<forall>c\<in>set r. py_isspace c"
    using strip_right [of s] by (elim exE conjE)
  have "takeWhile py_isspace s @ dropWhile py_isspace s = s"
    by (rule takeWhile_dropWhile_id)
  then have 1: "s = takeWhile py_isspace s @ py_strip s @ r"
    by (simp only: r(1))
  have 2: "\<forall>c\<in>set (takeWhile py_isspace s). py_isspace c"
    by (auto dest: set_takeWhileD)
  from 1 2 r(2) show ?thesis by (intro exI conjI)
qed

lemma strip_last: "py_strip s \<noteq> [] \<Longrightarrow> \<not> py_isspace (last (py_strip s))"
  unfolding py_strip_def by (simp add: last_rev hd_dropWhile)

lemma strip_hd:
  assumes "py_strip s \<noteq> []"
  shows "\<not> py_isspace (hd (py_strip s))"
proof -
  obtain r where r: "py_strip s @ r = dropWhile py_isspace s"
    using strip_right [of s] by (elim exE conjE)
  have 1: "hd (py_strip s @ r) = hd (py_strip s)"
    using assms by (rule hd_append2)
  have "py_strip s @ r \<noteq> []"
    using assms by simp
  then have "dropWhile py_isspace s \<noteq> []"
    unfolding r .
  then have "\<not> py_isspace (hd (dropWhile py_isspace s))"
    by (rule hd_dropWhile)
  then have "\<not> py_isspace (hd (py_strip s @ r))"
    unfolding r .
  then show ?thesis unfolding 1 .
qed

section \<open>The credential\<close>

lemma py_or_first:
  "truthy a \<or> truthy b \<or> truthy c \<Longrightarrow> py_or (py_or a b) c = first_non_empty [a, b, c]"
  by (auto simp: py_or_def first_non_empty_def)

lemma truthy_py_or: "truthy (py_or (py_or a b) c) \<longleftrightarrow> truthy a \<or> truthy b \<or> truthy c"
  by (simp add: py_or_def)

lemma truthyD: "truthy v \<Longrightarrow> \<exists>k. v = Some k \<and> k \<noteq> []"
  by (cases v) (simp_all add: truthy_def)

lemma script_missing:
  "\<not> truthy (API_KEY env) \<Longrightarrow>
     script L env W = ([], Raises (PyException (str_of ''ValueError'') missing_key_message))"
  by (simp add: script_def truthy_def split: option.splits)

lemma script_key:
  "API_KEY env = Some k \<Longrightarrow> k \<noteq> [] \<Longrightarrow>
     script L env W = (Configure k # fst (main L W), snd (main L W))"
  by (simp add: script_def split_beta)

text \<open>
  C6. When none of \<^verbatim>\<open>GEMINI_API_KEY\<close>, \<^verbatim>\<open>GOOGLE_API_KEY\<close> and \<^verbatim>\<open>OPENAI_API_KEY\<close> has a
  non-empty value, the script raises the \<^verbatim>\<open>ValueError\<close> with its message before any
  event at all: no speaker, detector or camera is constructed. When one of them is
  non-empty, the credential is the first non-empty one in that order, and it is what
  \<^verbatim>\<open>genai.configure\<close> receives before \<^verbatim>\<open>main\<close> runs.
\<close>

theorem credential_selection:
  fixes L :: "'f libs"
  shows "(\<not> truthy (env (str_of ''GEMINI_API_KEY'')) \<and> \<not> truthy (env (str_of ''GOOGLE_API_KEY''))
          \<and> \<not> truthy (env (str_of ''OPENAI_API_KEY'')) \<longrightarrow>
            script L env W = ([], Raises (PyException (str_of ''ValueError'') missing_key_message)))
       \<and> (truthy (env (str_of ''GEMINI_API_KEY'')) \<or> truthy (env (str_of ''GOOGLE_API_KEY''))
          \<or> truthy (env (str_of ''OPENAI_API_KEY'')) \<longrightarrow>
            API_KEY env = first_non_empty [env (str_of ''GEMINI_API_KEY''),
                                           env (str_of ''GOOGLE_API_KEY''),
                                           env (str_of ''OPENAI_API_KEY'')]
            \<and> (\<exists>k. API_KEY env = Some k \<and> k \<noteq> []
                   \<and> script L env W = (Configure k # fst (main L W), snd (main L W))))"
proof (intro conjI impI)
  assume "\<not> truthy (env (str_of ''GEMINI_API_KEY'')) \<and> \<not> truthy (env (str_of ''GOOGLE_API_KEY''))
          \<and> \<not> truthy (env (str_of ''OPENAI_API_KEY''))"
  then have "\<not> truthy (API_KEY env)"
    unfolding API_KEY_def truthy_py_or by (elim conjE) (intro notI, elim disjE, simp_all only: not_False_eq_True simp_thms)
  then show "script L env W = ([], Raises (PyException (str_of ''ValueError'') missing_key_message))"
    by (rule script_missing)
next
  assume t: "truthy (env (str_of ''GEMINI_API_KEY'')) \<or> truthy (env (str_of ''GOOGLE_API_KEY''))
          \<or> truthy (env (str_of ''OPENAI_API_KEY''))"
  then show "API_KEY env = first_non_empty [env (str_of ''GEMINI_API_KEY''),
                                           env (str_of ''GOOGLE_API_KEY''),
                                           env (str_of ''OPENAI_API_KEY'')]"
    unfolding API_KEY_def by (rule py_or_first)
  from t have "truthy (API_KEY env)"
    unfolding API_KEY_def truthy_py_or .
  then obtain k where k: "API_KEY env = Some k" "k \<noteq> []"
    using truthyD by blast
  from k script_key [OF k]
  show "\<exists>k. API_KEY env = Some k \<and> k \<noteq> []
                   \<and> script L env W = (Configure k # fst (main L W), snd (main L W))"
    by (intro exI conjI)
qed


theorem credential_selection_witness:
  "script fixture_libs Map.empty fixture_world
     = ([], Raises (PyException (str_of ''ValueError'') missing_key_message))
   \<and> truthy (fixture_env (str_of ''GOOGLE_API_KEY''))
   \<and> API_KEY fixture_env = Some (str_of ''g1'')"
proof -
  have h1: "\<not> truthy (Map.empty (str_of ''GEMINI_API_KEY''))
          \<and> \<not> truthy (Map.empty (str_of ''GOOGLE_API_KEY''))
          \<and> \<not> truthy (Map.empty (str_of ''OPENAI_API_KEY''))"
    by (simp add: truthy_def)
  have g: "fixture_env (str_of ''GEMINI_API_KEY'') = Some []"
    and go: "fixture_env (str_of ''GOOGLE_API_KEY'') = Some (str_of ''g1'')"
    and oa: "fixture_env (str_of ''OPENAI_API_KEY'') = Some (str_of ''o1'')"
    by (simp_all add: fixture_env_def)
  have t: "truthy (fixture_env (str_of ''GOOGLE_API_KEY''))"
    unfolding go by (simp add: truthy_def)
  then have h2: "truthy (fixture_env (str_of ''GEMINI_API_KEY''))
       \<or> truthy (fixture_env (str_of ''GOOGLE_API_KEY''))
       \<or> truthy (fixture_env (str_of ''OPENAI_API_KEY''))"
    by (intro disjI2 disjI1)
  have f: "first_non_empty [fixture_env (str_of ''GEMINI_API_KEY''),
                            fixture_env (str_of ''GOOGLE_API_KEY''),
                            fixture_env (str_of ''OPENAI_API_KEY'')] = Some (str_of ''g1'')"
    unfolding g go oa by (simp add: first_non_empty_def truthy_def)
  have a: "script fixture_libs Map.empty fixture_world
     = ([], Raises (PyException (str_of ''ValueError'') missing_key_message))"
    by (rule credential_selection [THEN conjunct1, THEN mp, OF h1])
  have b: "API_KEY fixture_env = Some (str_of ''g1'')"
    using credential_selection [where L = fixture_libs and W = fixture_world and env = fixture_env,
        THEN conjunct2, THEN mp, OF h2, THEN conjunct1]
    unfolding f .
  from a t b show ?thesis by (intro conjI)
qed

section \<open>ObstacleDetector.analyze\_frame\<close>

lemma analyze_frame_encoded:
  "imencode L frame = Inr (True, buf) \<Longrightarrow>
     analyze_frame L d frame w =
       ([GenerateContent (prompt d) (str_of ''image/jpeg'') (b64encode L buf)],
        (case w of RemoteRaises e \<Rightarrow> Inl e | Responded r \<Rightarrow> response_result r))"
  by (cases w) (simp_all add: analyze_frame_def Let_def)

lemma encodesD: "encodes L frame \<Longrightarrow> \<exists>buf. imencode L frame = Inr (True, buf)"
  by (cases "imencode L frame") (auto simp: encodes_def)

lemma not_encodes_cases:
  "\<not> encodes L frame \<Longrightarrow>
     (\<exists>e. imencode L frame = Inl e) \<or> (\<exists>buf. imencode L frame = Inr (False, buf))"
  by (cases "imencode L frame") (auto simp: encodes_def)

text \<open>
  C3 (as amended). For a frame that encodes, \<^verbatim>\<open>analyze_frame\<close> returns the text of the
  remote response with the white space at both ends removed when that text is not
  empty: the result is the text without a prefix and a suffix of white space, and
  neither starts nor ends with white space. When reading the text raises nothing the
  caller sees and finds no text (no \<^verbatim>\<open>text\<close> attribute, which is also what \<^verbatim>\<open>hasattr\<close>
  makes of an \<^verbatim>\<open>AttributeError\<close>, or a text that is \<^verbatim>\<open>None\<close> or empty), it returns the
  fixed string \<^verbatim>\<open>No clear response from AI.\<close> and raises nothing.
\<close>

theorem analyze_frame_text:
  fixes L :: "'f libs"
  assumes "encodes L frame"
  shows "(t \<noteq> [] \<longrightarrow>
            snd (analyze_frame L d frame (Responded (Text t))) = Inr (py_strip t)
            \<and> (\<exists>l r. t = l @ py_strip t @ r \<and> (\<forall>c\<in>set l. py_isspace c)
                      \<and> (\<forall>c\<in>set r. py_isspace c))
            \<and> (py_strip t \<noteq> [] \<longrightarrow>
                  \<not> py_isspace (hd (py_strip t)) \<and> \<not> py_isspace (last (py_strip t))))
       \<and> (r = NoTextAttr \<or> r = TextRaises (PyException (str_of ''AttributeError'') m)
          \<or> r = TextNone \<or> r = Text [] \<longrightarrow>
            snd (analyze_frame L d frame (Responded r))
              = Inr (str_of ''No clear response from AI.''))"
proof -
  obtain buf where enc: "imencode L frame = Inr (True, buf)"
    using encodesD [OF assms] by (elim exE)
  have a: "snd (analyze_frame L d frame (Responded x)) = response_result x" for x
    by (simp add: analyze_frame_encoded [OF enc])
  have p1: "t \<noteq> [] \<Longrightarrow> snd (analyze_frame L d frame (Responded (Text t))) = Inr (py_strip t)"
    by (simp add: a)
  have p2: "r = NoTextAttr \<or> r = TextRaises (PyException (str_of ''AttributeError'') m)
          \<or> r = TextNone \<or> r = Text [] \<Longrightarrow>
      snd (analyze_frame L d frame (Responded r)) = Inr (str_of ''No clear response from AI.'')"
    unfolding a no_response_def [symmetric] by (elim disjE) simp_all
  show ?thesis
  proof (intro conjI impI)
    show "\<exists>l r. t = l @ py_strip t @ r \<and> (\<forall>c\<in>set l. py_isspace c)
                      \<and> (\<forall>c\<in>set r. py_isspace c)"
      by (rule strip_decomp)
  qed (simp_all add: p1 p2 strip_hd strip_last)
qed

theorem analyze_frame_text_witness:
  "encodes fixture_libs 1
   \<and> snd (analyze_frame fixture_libs (detector fixture_app) 1
            (Responded (Text (str_of '' Stop ''))))
       = Inr (str_of ''Stop'')
   \<and> snd (analyze_frame fixture_libs (detector fixture_app) 1 (Responded (Text [])))
       = Inr (str_of ''No clear response from AI.'')"
proof -
  have h: "encodes fixture_libs 1" by (simp add: fixture_libs_def encodes_def)
  have s: "py_strip (str_of '' Stop '') = str_of ''Stop''"
    by (simp add: py_strip_def py_isspace_def)
  have t: "str_of '' Stop '' \<noteq> []" by simp
  note th = analyze_frame_text [OF h, where t = "str_of '' Stop ''" and r = "Text []"
      and d = "detector fixture_app"]
  have a: "snd (analyze_frame fixture_libs (detector fixture_app) 1
            (Responded (Text (str_of '' Stop '')))) = Inr (py_strip (str_of '' Stop ''))"
    using th [THEN conjunct1, THEN mp, OF t, THEN conjunct1] .
  have b: "snd (analyze_frame fixture_libs (detector fixture_app) 1 (Responded (Text [])))
       = Inr (str_of ''No clear response from AI.'')"
    by (rule th [THEN conjunct2, THEN mp, OF disjI2, OF disjI2, OF disjI2, OF refl])
  from h a [unfolded s] b show ?thesis by (intro conjI)
qed

theorem sentinel_counterexample:
  "snd (analyze_frame fixture_libs (detector fixture_app) 1 (Responded (Text [])))
     \<noteq> Inr (str_of ''no clear response from the system'')
   \<and> snd (analyze_frame fixture_libs (detector fixture_app) 1
            (Responded (TextRaises (PyException (str_of ''ValueError'') (str_of ''no parts'')))))
     = Inl (PyException (str_of ''ValueError'') (str_of ''no parts''))"
  by (simp add: analyze_frame_def fixture_libs_def no_response_def)

text \<open>
  C4 (as amended). For a frame that does not encode, \<^verbatim>\<open>analyze_frame\<close> raises and makes
  no call to the remote service (its trace is empty): a \<^verbatim>\<open>ValueError\<close> with the message
  \<^verbatim>\<open>Failed to encode frame\<close> when \<^verbatim>\<open>cv2.imencode\<close> reports failure, and whatever
  \<^verbatim>\<open>cv2.imencode\<close> raised when it raises. The error reaches the caller: for an instance
  of \<^verbatim>\<open>Exception\<close> the caller's warning line carries its message, and an interruption
  goes on through the caller.
\<close>

theorem encode_failure:
  fixes L :: "'f libs"
  assumes "\<not> encodes L frame"
  shows "fst (analyze_frame L d frame w) = []
       \<and> (\<exists>e. snd (analyze_frame L d frame w) = Inl e)
       \<and> (imencode L frame = Inr (False, buf) \<longrightarrow>
            snd (analyze_frame L d frame w)
              = Inl (PyException (str_of ''ValueError'') (str_of ''Failed to encode frame'')))
       \<and> (imencode L frame = Inl e' \<longrightarrow> snd (analyze_frame L d frame w) = Inl e')
       \<and> (snd (analyze_frame L (detector a) frame w) = Inl (PyException c m) \<longrightarrow>
            (\<exists>rest. fst (analyze_and_speak L a frame w wt)
                      = Print ([10] @ str_of ''[ANALYZING] Processing frame...'')
                        # Print (str_of ''[WARNING] Analysis error: '' @ m) # rest))
       \<and> (snd (analyze_frame L (detector a) frame w) = Inl KeyboardInterrupt \<longrightarrow>
            snd (analyze_and_speak L a frame w wt) = Some KeyboardInterrupt)"
proof -
  have f: "fst (analyze_frame L d' frame w) = []" for d'
    using not_encodes_cases [OF assms] by (auto simp: analyze_frame_def)
  have r: "\<exists>e. snd (analyze_frame L d frame w) = Inl e"
    using not_encodes_cases [OF assms] by (auto simp: analyze_frame_def)
  have v: "imencode L frame = Inr (False, buf) \<longrightarrow>
            snd (analyze_frame L d frame w)
              = Inl (PyException (str_of ''ValueError'') (str_of ''Failed to encode frame''))"
    by (simp add: analyze_frame_def encode_error_def)
  have x: "imencode L frame = Inl e' \<longrightarrow> snd (analyze_frame L d frame w) = Inl e'"
    by (simp add: analyze_frame_def)
  have p: "\<exists>rest. fst (analyze_and_speak L a frame w wt)
                      = Print ([10] @ str_of ''[ANALYZING] Processing frame...'')
                        # Print (str_of ''[WARNING] Analysis error: '' @ m) # rest"
    if "snd (analyze_frame L (detector a) frame w) = Inl (PyException c m)"
    using that f [of "detector a"]
    by (cases "analyze_frame L (detector a) frame w")
       (simp add: analyze_and_speak_def split_beta del: str_of_Cons)
  have k: "snd (analyze_and_speak L a frame w wt) = Some KeyboardInterrupt"
    if "snd (analyze_frame L (detector a) frame w) = Inl KeyboardInterrupt"
    using that
    by (cases "analyze_frame L (detector a) frame w") (simp add: analyze_and_speak_def)
  from f [of d] r v x impI [OF p] impI [OF k] show ?thesis by (intro conjI)
qed

theorem encode_failure_witness:
  "\<not> encodes fixture_libs 0 \<and> \<not> encodes fixture_libs 2
   \<and> analyze_frame fixture_libs (detector fixture_app) 0 (Responded (Text (str_of ''Stop'')))
       = ([], Inl (PyException (str_of ''ValueError'') (str_of ''Failed to encode frame'')))
   \<and> analyze_frame fixture_libs (detector fixture_app) 2 (Responded (Text (str_of ''Stop'')))
       = ([], Inl cv2_error)"
proof -
  have h0: "\<not> encodes fixture_libs 0" and h2: "\<not> encodes fixture_libs 2"
    by (simp_all add: fixture_libs_def encodes_def)
  have i0: "imencode fixture_libs 0 = Inr (False, [0])"
    and i2: "imencode fixture_libs 2 = Inl cv2_error"
    by (simp_all add: fixture_libs_def)
  note t0 = encode_failure [OF h0, where d = "detector fixture_app"
      and w = "Responded (Text (str_of ''Stop''))" and buf = "[0]"]
  note t2 = encode_failure [OF h2, where d = "detector fixture_app"
      and w = "Responded (Text (str_of ''Stop''))" and e' = cv2_error]
  have a: "analyze_frame fixture_libs (detector fixture_app) 0 (Responded (Text (str_of ''Stop'')))
       = ([], Inl (PyException (str_of ''ValueError'') (str_of ''Failed to encode frame'')))"
    using t0 [THEN conjunct1] t0 [THEN conjunct2, THEN conjunct2, THEN conjunct1, THEN mp, OF i0]
    by (simp only: prod_eq_iff fst_conv snd_conv simp_thms)
  have b: "analyze_frame fixture_libs (detector fixture_app) 2 (Responded (Text (str_of ''Stop'')))
       = ([], Inl cv2_error)"
    using t2 [THEN conjunct1]
      t2 [THEN conjunct2, THEN conjunct2, THEN conjunct2, THEN conjunct1, THEN mp, OF i2]
    by (simp only: prod_eq_iff fst_conv snd_conv simp_thms)
  from h0 h2 a b show ?thesis by (intro conjI)
qed

theorem encoding_error_counterexample:
  "snd (analyze_frame fixture_libs (detector fixture_app) 0 (Responded (Text (str_of ''Stop''))))
     \<noteq> Inl (PyException (str_of ''EncodingError'') (str_of ''failed to encode frame''))
   \<and> snd (analyze_frame fixture_libs (detector fixture_app) 2 (Responded (Text (str_of ''Stop''))))
     \<noteq> Inl (PyException (str_of ''EncodingError'') (str_of ''failed to encode frame''))"
  by (simp add: analyze_frame_def fixture_libs_def encode_error_def cv2_error_def)

section \<open>Speaker\<close>

lemma speak_no_Exception:
  "snd (speak sp text p w :: 'f event list \<times> exc option) \<noteq> Some (PyException c m)"
  by (cases "(text, w)" rule: playback.cases) (simp_all add: speak_def Let_def)

lemma playback_Exception:
  "w = SayRaises (PyException c m) \<or> w = RunRaises (PyException c m) \<Longrightarrow>
     snd (playback text w :: 'f event list \<times> exc option) = None
     \<and> last (fst (playback text w :: 'f event list \<times> exc option)) = Print (str_of ''TTS Error: '' @ m)"
  by (elim disjE) simp_all

lemma speak_disabled:
  "\<not> enabled sp \<Longrightarrow>
     (speak sp text p w :: 'f event list \<times> exc option)
       = (if p then [Print (str_of ''AI: '' @ text)] else [], None)"
  by (simp add: speak_def Let_def)

lemma speak_enabled:
  "enabled sp \<Longrightarrow>
     (speak sp text p w :: 'f event list \<times> exc option)
       = ((if p then [Print (str_of ''AI: '' @ text)] else []) @ fst (playback text w),
          snd (playback text w :: 'f event list \<times> exc option))"
  by (simp add: speak_def Let_def split_beta)

lemma playback_prints:
  "Print s \<in> set (fst (playback text w :: 'f event list \<times> exc option)) \<Longrightarrow>
     \<exists>c m. (w = SayRaises (PyException c m) \<or> w = RunRaises (PyException c m))
           \<and> s = str_of ''TTS Error: '' @ m"
  by (cases "(text, w)" rule: playback.cases) auto

text \<open>
  C7. When the construction of the speech engine raises (in \<^verbatim>\<open>pyttsx3.init()\<close> or in
  \<^verbatim>\<open>setProperty\<close>), the speaker is built disabled, and every later \<^verbatim>\<open>speak(text)\<close>
  prints the text, with the prefix \<^verbatim>\<open>AI: \<close>, calls neither \<^verbatim>\<open>say\<close> nor \<^verbatim>\<open>runAndWait\<close>,
  and raises nothing. On an enabled speaker an exception of \<^verbatim>\<open>say\<close> or \<^verbatim>\<open>runAndWait\<close> is
  caught: \<^verbatim>\<open>speak\<close> raises nothing and its last event is the line \<^verbatim>\<open>TTS Error: ...\<close>.
\<close>

theorem speaker_degrades:
  "(w0 = InitRaises (PyException c m) \<or> w0 = SetPropertyRaises (PyException c m) \<longrightarrow>
      (\<exists>sp. snd (Speaker_init rate w0 :: 'f event list \<times> (exc + speaker)) = Inr sp
         \<and> (\<forall>text w. (speak_default sp text w :: 'f event list \<times> exc option)
                        = ([Print (str_of ''AI: '' @ text)], None))))
   \<and> (enabled sp' \<and> (w' = SayRaises (PyException c m) \<or> w' = RunRaises (PyException c m)) \<longrightarrow>
        snd (speak sp' text' p w' :: 'f event list \<times> exc option) = None
        \<and> last (fst (speak sp' text' p w' :: 'f event list \<times> exc option))
            = Print (str_of ''TTS Error: '' @ m))"
proof (intro conjI impI)
  assume "w0 = InitRaises (PyException c m) \<or> w0 = SetPropertyRaises (PyException c m)"
  then have "snd (Speaker_init rate w0 :: 'f event list \<times> (exc + speaker)) = Inr \<lparr>enabled = False\<rparr>"
    by (elim disjE) simp_all
  moreover have "\<forall>text w. (speak_default \<lparr>enabled = False\<rparr> text w :: 'f event list \<times> exc option)
                        = ([Print (str_of ''AI: '' @ text)], None)"
    by (simp add: speak_default_def speak_disabled)
  ultimately show "\<exists>sp. snd (Speaker_init rate w0 :: 'f event list \<times> (exc + speaker)) = Inr sp
         \<and> (\<forall>text w. (speak_default sp text w :: 'f event list \<times> exc option)
                        = ([Print (str_of ''AI: '' @ text)], None))"
    by (intro exI conjI)
next
  assume a: "enabled sp' \<and> (w' = SayRaises (PyException c m) \<or> w' = RunRaises (PyException c m))"
  then have e: "enabled sp'" and w: "w' = SayRaises (PyException c m) \<or> w' = RunRaises (PyException c m)"
    by simp_all
  note pb = playback_Exception [OF w, of text', where 'f = 'f]
  show "snd (speak sp' text' p w' :: 'f event list \<times> exc option) = None"
    using pb by (simp add: speak_enabled [OF e])
  have "fst (playback text' w' :: 'f event list \<times> exc option) \<noteq> []"
    using w by (elim disjE) simp_all
  then show "last (fst (speak sp' text' p w' :: 'f event list \<times> exc option))
            = Print (str_of ''TTS Error: '' @ m)"
    using pb by (simp add: speak_enabled [OF e])
qed


theorem speaker_degrades_witness:
  "snd (Speaker_init 170 (InitRaises (PyException (str_of ''RuntimeError'') (str_of ''no driver'')))
          :: nat event list \<times> (exc + speaker)) = Inr \<lparr>enabled = False\<rparr>
   \<and> (speak_default \<lparr>enabled = False\<rparr> (str_of ''Clear path ahead'') Played
          :: nat event list \<times> exc option)
       = ([Print (str_of ''AI: '' @ str_of ''Clear path ahead'')], None)
   \<and> snd (speak \<lparr>enabled = True\<rparr> (str_of ''Stop'') True
            (RunRaises (PyException (str_of ''RuntimeError'') (str_of ''no driver'')))
          :: nat event list \<times> exc option) = None"
proof -
  let ?e = "PyException (str_of ''RuntimeError'') (str_of ''no driver'')"
  note th = speaker_degrades [where ?'f = nat and c = "str_of ''RuntimeError''"
      and m = "str_of ''no driver''" and ?w0.0 = "InitRaises ?e" and rate = 170
      and sp' = "\<lparr>enabled = True\<rparr>" and w' = "RunRaises ?e" and text' = "str_of ''Stop''"
      and p = True]
  have i: "snd (Speaker_init 170 (InitRaises ?e) :: nat event list \<times> (exc + speaker))
             = Inr \<lparr>enabled = False\<rparr>"
    by simp
  obtain sp where sp: "snd (Speaker_init 170 (InitRaises ?e) :: nat event list \<times> (exc + speaker)) = Inr sp"
    and all: "\<forall>text w. (speak_default sp text w :: nat event list \<times> exc option)
                        = ([Print (str_of ''AI: '' @ text)], None)"
    using th [THEN conjunct1, THEN mp, OF disjI1, OF refl] by (elim exE conjE)
  from sp i have "sp = \<lparr>enabled = False\<rparr>" by simp
  with all have a: "(speak_default \<lparr>enabled = False\<rparr> (str_of ''Clear path ahead'') Played
          :: nat event list \<times> exc option)
       = ([Print (str_of ''AI: '' @ str_of ''Clear path ahead'')], None)"
    by simp
  have "enabled \<lparr>enabled = True\<rparr> \<and> (RunRaises ?e = SayRaises ?e \<or> RunRaises ?e = RunRaises ?e)"
    by simp
  from th [THEN conjunct2, THEN mp, OF this, THEN conjunct1] i a show ?thesis
    by (intro conjI)
qed

text \<open>
  C10 (as amended). \<^verbatim>\<open>speak\<close> takes a flag \<^verbatim>\<open>print_text\<close> whose default is \<^verbatim>\<open>True\<close>. With
  the flag true the first event is the line \<^verbatim>\<open>AI: \<close> followed by the text. With the
  flag false that line is not printed, and the only line that can still be printed
  is \<^verbatim>\<open>TTS Error: ...\<close>, when the speaker is enabled and playback raises an exception.
\<close>

theorem speak_print_flag:
  "(\<exists>ev. fst (speak sp text True w :: 'f event list \<times> exc option)
            = Print (str_of ''AI: '' @ text) # ev)
   \<and> (speak_default sp text w :: 'f event list \<times> exc option) = speak sp text True w
   \<and> Print (str_of ''AI: '' @ text) \<notin> set (fst (speak sp text False w :: 'f event list \<times> exc option))
   \<and> (\<forall>s. Print s \<in> set (fst (speak sp text False w :: 'f event list \<times> exc option)) \<longrightarrow>
          enabled sp
          \<and> (\<exists>c m. (w = SayRaises (PyException c m) \<or> w = RunRaises (PyException c m))
                   \<and> s = str_of ''TTS Error: '' @ m))"
proof -
  have 4: "enabled sp
          \<and> (\<exists>c m. (w = SayRaises (PyException c m) \<or> w = RunRaises (PyException c m))
                   \<and> s = str_of ''TTS Error: '' @ m)"
    if "Print s \<in> set (fst (speak sp text False w :: 'f event list \<times> exc option))" for s
  proof (cases "enabled sp")
    case True
    with that have "Print s \<in> set (fst (playback text w :: 'f event list \<times> exc option))"
      by (simp add: speak_enabled)
    from playback_prints [OF this] True show ?thesis by (intro conjI)
  next
    case False
    with that show ?thesis by (simp add: speak_disabled)
  qed
  have 3: "Print (str_of ''AI: '' @ text) \<notin> set (fst (speak sp text False w :: 'f event list \<times> exc option))"
  proof
    assume "Print (str_of ''AI: '' @ text) \<in> set (fst (speak sp text False w :: 'f event list \<times> exc option))"
    from 4 [OF this] obtain m where "str_of ''AI: '' @ text = str_of ''TTS Error: '' @ m"
      by (elim conjE exE)
    then show False by simp
  qed
  have 1: "\<exists>ev. fst (speak sp text True w :: 'f event list \<times> exc option)
            = Print (str_of ''AI: '' @ text) # ev"
    by (cases "enabled sp") (simp_all add: speak_enabled speak_disabled)
  from 1 3 4 show ?thesis
    by (simp only: speak_default_def simp_thms) blast
qed

theorem speak_print_flag_witness:
  "Print (str_of ''TTS Error: boom'')
     \<in> set (fst (speak \<lparr>enabled = True\<rparr> (str_of ''Stop'') False
                   (RunRaises (PyException (str_of ''RuntimeError'') (str_of ''boom'')))
                 :: nat event list \<times> exc option))
   \<and> enabled \<lparr>enabled = True\<rparr>"
proof -
  have h: "Print (str_of ''TTS Error: boom'')
     \<in> set (fst (speak \<lparr>enabled = True\<rparr> (str_of ''Stop'') False
                   (RunRaises (PyException (str_of ''RuntimeError'') (str_of ''boom'')))
                 :: nat event list \<times> exc option))"
    by (simp add: speak_def)
  from speak_print_flag [THEN conjunct2, THEN conjunct2, THEN conjunct2, THEN spec, THEN mp, OF h]
  have "enabled \<lparr>enabled = True\<rparr>" by (rule conjunct1)
  with h show ?thesis by (intro conjI)
qed

theorem silent_flag_counterexample:
  "Print (str_of ''TTS Error: boom'')
     \<in> set (fst (speak \<lparr>enabled = True\<rparr> (str_of ''Stop'') False
                   (RunRaises (PyException (str_of ''RuntimeError'') (str_of ''boom'')))
                 :: nat event list \<times> exc option))"
  by (simp add: speak_def)

section \<open>AssistiveAI.start\<close>

text \<open>
  C8. When the camera cannot be opened, \<^verbatim>\<open>start\<close> makes the one attempt to open it,
  prints the error line and returns: no frame is read, nothing is analysed and the
  loop is not entered, whatever the world would have supplied.
\<close>

theorem camera_open_failure:
  "start L a False w_act ticks w_int
     = ([VideoCapture (camera_id a), Print (str_of ''[ERROR] Could not open webcam.'')], Returns)"
  by (simp add: start_def Let_def)

section \<open>The polling loop\<close>

lemma iteration_key:
  fixes L :: "'f libs"
  assumes "t_read tk = Frame frame" and "t_key tk = Key k"
    and "analysis_returns L a last_analysis tk frame"
  shows "iteration L a last_analysis tk =
    (if is_quit k
     then (CapRead # analysed_events L a last_analysis tk frame
             @ [Imshow window_title frame, WaitKey 1]
             @ fst (speak_default (speaker a) shutdown_notice (t_bye tk)),
           next_last a last_analysis tk,
           (case snd (speak_default (speaker a) shutdown_notice (t_bye tk)
                       :: 'f event list \<times> exc option) of
              None \<Rightarrow> Break | Some e \<Rightarrow> Raise e))
     else (CapRead # analysed_events L a last_analysis tk frame
             @ [Imshow window_title frame, WaitKey 1],
           next_last a last_analysis tk, Continue))"
  using assms unfolding iteration_def analysed_events_def next_last_def analysis_returns_def
  by (auto simp: Let_def split: prod.splits option.splits)


lemma speak_default_first:
  "\<exists>ev. fst (speak_default sp text w :: 'f event list \<times> exc option)
           = Print (str_of ''AI: '' @ text) # ev"
  by (cases "enabled sp") (simp_all add: speak_default_def speak_enabled speak_disabled)

lemma playback_says: "TtsSay text \<in> set (fst (playback text w :: 'f event list \<times> exc option))"
  by (cases "(text, w)" rule: playback.cases) simp_all

lemma speak_default_says:
  "enabled sp \<Longrightarrow> TtsSay text \<in> set (fst (speak_default sp text w :: 'f event list \<times> exc option))"
  by (simp add: speak_default_def speak_enabled playback_says)

lemma loop_stops:
  "snd (snd (iteration L a last_analysis tk)) \<noteq> Continue \<Longrightarrow>
     loop L a last_analysis (tk # rest)
       = (fst (iteration L a last_analysis tk), snd (snd (iteration L a last_analysis tk)))"
  by (cases "iteration L a last_analysis tk" rule: prod_cases3)
     (simp split: flow.splits)

lemma loop_continues:
  "snd (snd (iteration L a last_analysis tk)) = Continue \<Longrightarrow>
     loop L a last_analysis (tk # rest)
       = (fst (iteration L a last_analysis tk)
            @ fst (loop L a (fst (snd (iteration L a last_analysis tk))) rest),
          snd (loop L a (fst (snd (iteration L a last_analysis tk))) rest))"
  by (cases "iteration L a last_analysis tk" rule: prod_cases3)
     (simp add: split_beta)

lemma fixture_analysis_returns:
  "analysis_returns fixture_libs fixture_app last_analysis (tick_at now key) 1"
  by (simp add: analysis_returns_def tick_at_def analyze_and_speak_def analyze_frame_def
      fixture_libs_def fixture_app_def speak_default_def speak_def)

text \<open>
  C9. The quit test compares the low byte of the key code with \<^verbatim>\<open>ord('q')\<close>: the code of
  \<^verbatim>\<open>q\<close> quits, the code of \<^verbatim>\<open>Q\<close> does not, and among the character codes 0 to 255 only
  that of \<^verbatim>\<open>q\<close> quits. When the key check of a pass sees the quit key, after the frame
  has been shown, the shutdown notice is spoken (printed first, and said when the
  speaker is enabled) and the loop is left whatever ticks would follow; with any
  other key the loop goes on.
\<close>

theorem quit_key:
  fixes L :: "'f libs"
  shows "is_quit (of_char CHR ''q'') \<and> \<not> is_quit (of_char CHR ''Q'')
    \<and> (0 \<le> k \<and> k < 256 \<longrightarrow> (is_quit k \<longleftrightarrow> k = of_char CHR ''q''))
    \<and> (t_read tk = Frame frame \<and> t_key tk = Key k'
        \<and> analysis_returns L a last_analysis tk frame \<and> is_quit k' \<longrightarrow>
          fst (iteration L a last_analysis tk)
            = CapRead # analysed_events L a last_analysis tk frame
              @ [Imshow window_title frame, WaitKey 1]
              @ fst (speak_default (speaker a) shutdown_notice (t_bye tk))
          \<and> hd (fst (speak_default (speaker a) shutdown_notice (t_bye tk)
                      :: 'f event list \<times> exc option))
              = Print (str_of ''AI: Shutting down assistive AI system.'')
          \<and> (enabled (speaker a) \<longrightarrow>
                TtsSay (str_of ''Shutting down assistive AI system.'')
                  \<in> set (fst (speak_default (speaker a) shutdown_notice (t_bye tk)
                               :: 'f event list \<times> exc option)))
          \<and> snd (snd (iteration L a last_analysis tk)) \<noteq> Continue
          \<and> loop L a last_analysis (tk # rest)
              = (fst (iteration L a last_analysis tk), snd (snd (iteration L a last_analysis tk))))
    \<and> (t_read tk = Frame frame \<and> t_key tk = Key k'
        \<and> analysis_returns L a last_analysis tk frame \<and> \<not> is_quit k' \<longrightarrow>
          snd (snd (iteration L a last_analysis tk)) = Continue)"
proof -
  have q: "is_quit (of_char CHR ''q'')" "\<not> is_quit (of_char CHR ''Q'')"
    by (simp_all add: is_quit_mod)
  have c: "0 \<le> k \<and> k < 256 \<longrightarrow> (is_quit k \<longleftrightarrow> k = of_char CHR ''q'')"
    by (simp add: is_quit_mod)
  have n: "snd (snd (iteration L a last_analysis tk)) = Continue"
    if "t_read tk = Frame frame \<and> t_key tk = Key k'
        \<and> analysis_returns L a last_analysis tk frame \<and> \<not> is_quit k'"
    using that by (simp add: iteration_key)
  have y: "fst (iteration L a last_analysis tk)
            = CapRead # analysed_events L a last_analysis tk frame
              @ [Imshow window_title frame, WaitKey 1]
              @ fst (speak_default (speaker a) shutdown_notice (t_bye tk))"
      "snd (snd (iteration L a last_analysis tk)) \<noteq> Continue"
    if "t_read tk = Frame frame \<and> t_key tk = Key k'
        \<and> analysis_returns L a last_analysis tk frame \<and> is_quit k'"
    using that by (simp_all add: iteration_key split: option.splits)
  have h: "hd (fst (speak_default (speaker a) shutdown_notice (t_bye tk)
                      :: 'f event list \<times> exc option))
              = Print (str_of ''AI: Shutting down assistive AI system.'')"
    using speak_default_first [of "speaker a" shutdown_notice "t_bye tk", where ?'f = 'f]
    by (auto simp: shutdown_notice_def)
  have s: "enabled (speaker a) \<longrightarrow>
                TtsSay (str_of ''Shutting down assistive AI system.'')
                  \<in> set (fst (speak_default (speaker a) shutdown_notice (t_bye tk)
                               :: 'f event list \<times> exc option))"
    using speak_default_says [of "speaker a" shutdown_notice "t_bye tk", where ?'f = 'f]
    unfolding shutdown_notice_def by (rule impI)
  from q c n y h s loop_stops [of L a last_analysis tk rest]
  show ?thesis by (intro conjI impI) simp_all
qed

theorem quit_key_witness:
  "t_read (tick_at 100 113) = Frame 1 \<and> t_key (tick_at 100 113) = Key 113
   \<and> analysis_returns fixture_libs fixture_app 0 (tick_at 100 113) 1 \<and> is_quit 113
   \<and> snd (loop fixture_libs fixture_app 0 [tick_at 100 113, tick_at 101 (-1)]) \<noteq> Continue
   \<and> \<not> is_quit 81
   \<and> snd (snd (iteration fixture_libs fixture_app 0 (tick_at 100 81))) = Continue"
proof -
  have q: "is_quit 113" and nq: "\<not> is_quit 81"
    by (simp_all add: is_quit_mod)
  have r: "t_read (tick_at 100 k) = Frame 1" and k: "t_key (tick_at 100 k) = Key k" for k
    by (simp_all add: tick_at_def)
  note ar = fixture_analysis_returns
  have h1: "t_read (tick_at 100 113) = Frame 1 \<and> t_key (tick_at 100 113) = Key 113
        \<and> analysis_returns fixture_libs fixture_app 0 (tick_at 100 113) 1 \<and> is_quit 113"
    using r k ar q by (intro conjI)
  have h2: "t_read (tick_at 100 81) = Frame 1 \<and> t_key (tick_at 100 81) = Key 81
        \<and> analysis_returns fixture_libs fixture_app 0 (tick_at 100 81) 1 \<and> \<not> is_quit 81"
    using r k ar nq by (intro conjI)
  note th1 = quit_key [where L = fixture_libs and a = fixture_app and last_analysis = 0
      and tk = "tick_at 100 113" and frame = 1 and k' = 113 and rest = "[tick_at 101 (-1)]",
      THEN conjunct2, THEN conjunct2, THEN conjunct2, THEN conjunct1, THEN mp, OF h1]
  note th2 = quit_key [where L = fixture_libs and a = fixture_app and last_analysis = 0
      and tk = "tick_at 100 81" and frame = 1 and k' = 81,
      THEN conjunct2, THEN conjunct2, THEN conjunct2, THEN conjunct2, THEN mp, OF h2]
  from th1 have "snd (loop fixture_libs fixture_app 0 [tick_at 100 113, tick_at 101 (-1)])
      \<noteq> Continue"
    by simp
  with r k ar q nq th2 show ?thesis by (intro conjI)
qed

lemma analyze_and_speak_caught:
  fixes L :: "'f libs"
  assumes "snd (analyze_frame L (detector a) frame wr) = Inl (PyException c m)"
  shows "analyze_and_speak L a frame wr wt =
     (Print ([10] @ str_of ''[ANALYZING] Processing frame...'')
        # fst (analyze_frame L (detector a) frame wr)
        @ Print (str_of ''[WARNING] Analysis error: '' @ m)
        # fst (speak_default (speaker a) analysis_error_phrase wt),
      snd (speak_default (speaker a) analysis_error_phrase wt :: 'f event list \<times> exc option))"
  using assms unfolding analyze_and_speak_def
  by (cases "analyze_frame L (detector a) frame wr") (simp add: split_beta)

lemma analyze_and_speak_no_Exception:
  "snd (analyze_and_speak L a frame wr wt) \<noteq> Some (PyException c m)"
proof (cases "analyze_frame L (detector a) frame wr")
  case (Pair ev r)
  show ?thesis
  proof (cases r)
    case (Inl e)
    with Pair show ?thesis
      using speak_no_Exception [of "speaker a" analysis_error_phrase True wt c m]
      by (cases e) (simp_all add: analyze_and_speak_def split_beta speak_default_def)
  next
    case (Inr res)
    with Pair show ?thesis
      using speak_no_Exception [of "speaker a" res True wt c m]
      by (simp add: analyze_and_speak_def split_beta speak_default_def)
  qed
qed

lemma iteration_dispatch:
  fixes L :: "'f libs"
  assumes "t_read tk = Frame frame" and "t_key tk = Key k" and "\<not> is_quit k"
    and "t_now tk - last_analysis \<ge> interval a"
    and "snd (analyze_and_speak L a frame (t_remote tk) (t_say tk)) = None"
  shows "iteration L a last_analysis tk =
     (CapRead # Dispatch (t_now tk) # fst (analyze_and_speak L a frame (t_remote tk) (t_say tk))
        @ [Imshow window_title frame, WaitKey 1], t_now tk, Continue)"
proof -
  have "analysis_returns L a last_analysis tk frame"
    using assms(5) by (simp add: analysis_returns_def)
  from iteration_key [OF assms(1,2) this] assms(3,4) show ?thesis
    by (simp add: analysed_events_def next_last_def)
qed

lemma playback_first:
  "\<exists>more. fst (playback text w :: 'f event list \<times> exc option) = TtsSay text # more"
  by (cases "(text, w)" rule: playback.cases) simp_all

lemma playback_result:
  "snd (playback text w :: 'f event list \<times> exc option)
     = (if interrupts w then Some KeyboardInterrupt else None)"
  by (cases "(text, w)" rule: playback.cases) simp_all

lemma speak_default_eq:
  "(speak_default sp text w :: 'f event list \<times> exc option)
     = (Print (str_of ''AI: '' @ text) # (if enabled sp then fst (playback text w) else []),
        if enabled sp \<and> interrupts w then Some KeyboardInterrupt else None)"
  by (cases "enabled sp")
     (simp_all add: speak_default_def speak_enabled speak_disabled playback_result del: str_of_Cons)

text \<open>
  C5. What \<^verbatim>\<open>analyze_frame\<close> raises is: the exception of the remote call, the exception
  of reading the response's text, and the encoding error. Whenever it raises an
  instance of \<^verbatim>\<open>Exception\<close>, \<^verbatim>\<open>_analyze_and_speak\<close> prints the warning line with its
  message, then speaks the fixed phrase: it prints \<^verbatim>\<open>AI: Error analyzing the scene.\<close> and,
  when the speaker is enabled, says the phrase. It raises nothing, unless that
  playback is interrupted from the keyboard, and never an instance of \<^verbatim>\<open>Exception\<close>. In
  the loop, such a pass with a key other than the quit key is followed by the passes
  for the remaining ticks, with the baseline set to the time of the failed dispatch.
\<close>

theorem analysis_failure_contained:
  fixes L :: "'f libs"
  shows "(encodes L frame \<longrightarrow>
            snd (analyze_frame L (detector a) frame (RemoteRaises e)) = Inl e)
    \<and> (encodes L frame \<and> cls \<noteq> str_of ''AttributeError'' \<longrightarrow>
            snd (analyze_frame L (detector a) frame (Responded (TextRaises (PyException cls msg))))
              = Inl (PyException cls msg))
    \<and> (\<not> encodes L frame \<longrightarrow> (\<exists>e. snd (analyze_frame L (detector a) frame wr) = Inl e))
    \<and> (snd (analyze_frame L (detector a) frame wr) = Inl (PyException c m) \<longrightarrow>
          (\<exists>said. fst (analyze_and_speak L a frame wr wt)
                    = Print ([10] @ str_of ''[ANALYZING] Processing frame...'')
                      # fst (analyze_frame L (detector a) frame wr)
                      @ [Print (str_of ''[WARNING] Analysis error: '' @ m),
                         Print (str_of ''AI: Error analyzing the scene.'')]
                      @ said
                 \<and> (enabled (speaker a) \<longrightarrow>
                       (\<exists>more. said = TtsSay (str_of ''Error analyzing the scene.'') # more))
                 \<and> (enabled (speaker a) \<and> wt = Played \<longrightarrow>
                       said = [TtsSay (str_of ''Error analyzing the scene.''), TtsRunAndWait])
                 \<and> (\<not> enabled (speaker a) \<longrightarrow> said = []))
          \<and> snd (analyze_and_speak L a frame wr wt)
              = (if enabled (speaker a) \<and> interrupts wt then Some KeyboardInterrupt else None)
          \<and> (t_read tk = Frame frame \<and> t_remote tk = wr \<and> t_say tk = wt
              \<and> t_now tk - last_analysis \<ge> interval a
              \<and> \<not> (enabled (speaker a) \<and> interrupts wt)
              \<and> t_key tk = Key k \<and> \<not> is_quit k \<longrightarrow>
                loop L a last_analysis (tk # rest)
                  = (CapRead # Dispatch (t_now tk) # fst (analyze_and_speak L a frame wr wt)
                       @ [Imshow window_title frame, WaitKey 1]
                       @ fst (loop L a (t_now tk) rest),
                     snd (loop L a (t_now tk) rest))))
    \<and> snd (analyze_and_speak L a frame wr wt) \<noteq> Some (PyException c' m')"
proof (intro conjI impI)
  assume "encodes L frame"
  from encodesD [OF this] obtain buf where "imencode L frame = Inr (True, buf)"
    by (elim exE)
  then show "snd (analyze_frame L (detector a) frame (RemoteRaises e)) = Inl e"
    by (simp add: analyze_frame_encoded)
next
  assume h: "encodes L frame \<and> cls \<noteq> str_of ''AttributeError''"
  then have "encodes L frame" by (rule conjunct1)
  from encodesD [OF this] obtain buf where "imencode L frame = Inr (True, buf)"
    by (elim exE)
  with h show "snd (analyze_frame L (detector a) frame (Responded (TextRaises (PyException cls msg))))
              = Inl (PyException cls msg)"
    by (simp add: analyze_frame_encoded del: str_of_Cons)
next
  assume "\<not> encodes L frame"
  from not_encodes_cases [OF this]
  show "\<exists>e. snd (analyze_frame L (detector a) frame wr) = Inl e"
    by (auto simp: analyze_frame_def)
next
  show "snd (analyze_and_speak L a frame wr wt) \<noteq> Some (PyException c' m')"
    by (rule analyze_and_speak_no_Exception)
next
  assume f: "snd (analyze_frame L (detector a) frame wr) = Inl (PyException c m)"
  let ?phrase = "str_of ''Error analyzing the scene.''"
  let ?said = "if enabled (speaker a) then fst (playback ?phrase wt :: 'f event list \<times> exc option) else []"
  have ai: "str_of ''AI: '' @ ?phrase = str_of ''AI: Error analyzing the scene.''"
    by simp
  have c: "analyze_and_speak L a frame wr wt =
     (Print ([10] @ str_of ''[ANALYZING] Processing frame...'')
        # fst (analyze_frame L (detector a) frame wr)
        @ [Print (str_of ''[WARNING] Analysis error: '' @ m),
           Print (str_of ''AI: Error analyzing the scene.'')] @ ?said,
      if enabled (speaker a) \<and> interrupts wt then Some KeyboardInterrupt else None)"
    by (simp only: analyze_and_speak_caught [OF f, of wt] analysis_error_phrase_def
        speak_default_eq ai fst_conv snd_conv append_Cons append_Nil)
  have s1: "enabled (speaker a) \<longrightarrow> (\<exists>more. ?said = TtsSay ?phrase # more)"
    using playback_first [of ?phrase wt, where ?'f = 'f] by simp
  have s2: "enabled (speaker a) \<and> wt = Played \<longrightarrow> ?said = [TtsSay ?phrase, TtsRunAndWait]"
    by simp
  have s3: "\<not> enabled (speaker a) \<longrightarrow> ?said = []"
    by simp
  have e: "fst (analyze_and_speak L a frame wr wt)
                    = Print ([10] @ str_of ''[ANALYZING] Processing frame...'')
                      # fst (analyze_frame L (detector a) frame wr)
                      @ [Print (str_of ''[WARNING] Analysis error: '' @ m),
                         Print (str_of ''AI: Error analyzing the scene.'')]
                      @ ?said"
    by (simp only: c fst_conv)
  from e s1 s2 s3
  show "\<exists>said. fst (analyze_and_speak L a frame wr wt)
                    = Print ([10] @ str_of ''[ANALYZING] Processing frame...'')
                      # fst (analyze_frame L (detector a) frame wr)
                      @ [Print (str_of ''[WARNING] Analysis error: '' @ m),
                         Print (str_of ''AI: Error analyzing the scene.'')]
                      @ said
                 \<and> (enabled (speaker a) \<longrightarrow>
                       (\<exists>more. said = TtsSay (str_of ''Error analyzing the scene.'') # more))
                 \<and> (enabled (speaker a) \<and> wt = Played \<longrightarrow>
                       said = [TtsSay (str_of ''Error analyzing the scene.''), TtsRunAndWait])
                 \<and> (\<not> enabled (speaker a) \<longrightarrow> said = [])"
    by (intro exI [of _ ?said] conjI)
  show s: "snd (analyze_and_speak L a frame wr wt)
              = (if enabled (speaker a) \<and> interrupts wt then Some KeyboardInterrupt else None)"
    by (simp only: c snd_conv)
  assume h: "t_read tk = Frame frame \<and> t_remote tk = wr \<and> t_say tk = wt
              \<and> t_now tk - last_analysis \<ge> interval a
              \<and> \<not> (enabled (speaker a) \<and> interrupts wt)
              \<and> t_key tk = Key k \<and> \<not> is_quit k"
  then have n: "snd (analyze_and_speak L a frame (t_remote tk) (t_say tk)) = None"
    using s by simp
  from h have r: "t_read tk = Frame frame" and ky: "t_key tk = Key k" and nq: "\<not> is_quit k"
    and due: "t_now tk - last_analysis \<ge> interval a"
    by simp_all
  note it = iteration_dispatch [OF r ky nq due n]
  from h have eq: "t_remote tk = wr" "t_say tk = wt" by simp_all
  show "loop L a last_analysis (tk # rest)
                  = (CapRead # Dispatch (t_now tk) # fst (analyze_and_speak L a frame wr wt)
                       @ [Imshow window_title frame, WaitKey 1]
                       @ fst (loop L a (t_now tk) rest),
                     snd (loop L a (t_now tk) rest))"
    using it unfolding eq by (simp add: split_beta)
qed


theorem analysis_failure_contained_witness:
  "encodes fixture_libs 1
   \<and> snd (analyze_frame fixture_libs (detector fixture_app) 1 (RemoteRaises network_error))
       = Inl network_error
   \<and> Print (str_of ''AI: Error analyzing the scene.'')
       \<in> set (fst (analyze_and_speak fixture_libs fixture_app 1 (RemoteRaises network_error) Played))
   \<and> TtsSay (str_of ''Error analyzing the scene.'')
       \<in> set (fst (analyze_and_speak fixture_libs fixture_app 1 (RemoteRaises network_error) Played))
   \<and> snd (analyze_and_speak fixture_libs fixture_app 1 (RemoteRaises network_error) Played) = None
   \<and> \<not> is_quit (- 1)
   \<and> snd (loop fixture_libs fixture_app 0 [failing_tick 100 (- 1), tick_at 101 113])
       = snd (loop fixture_libs fixture_app 100 [tick_at 101 113])"
proof -
  note th = analysis_failure_contained [where L = fixture_libs and a = fixture_app and frame = 1
      and e = network_error and wr = "RemoteRaises network_error" and wt = Played
      and c = "str_of ''ConnectionError''" and m = "str_of ''timed out''"
      and tk = "failing_tick 100 (- 1)" and last_analysis = 0 and k = "- 1"
      and rest = "[tick_at 101 113]"]
  have h: "encodes fixture_libs 1" by (simp add: fixture_libs_def encodes_def)
  have en: "enabled (speaker fixture_app)" by (simp add: fixture_app_def)
  have ni: "\<not> interrupts Played" by simp
  have a: "snd (analyze_frame fixture_libs (detector fixture_app) 1 (RemoteRaises network_error))
       = Inl network_error"
    by (rule th [THEN conjunct1, THEN mp, OF h])
  have a': "snd (analyze_frame fixture_libs (detector fixture_app) 1 (RemoteRaises network_error))
       = Inl (PyException (str_of ''ConnectionError'') (str_of ''timed out''))"
    by (rule a [THEN trans]) (simp only: network_error_def)
  note b = th [THEN conjunct2, THEN conjunct2, THEN conjunct2, THEN conjunct1, THEN mp, OF a']
  from b [THEN conjunct1] obtain said
    where ev: "fst (analyze_and_speak fixture_libs fixture_app 1 (RemoteRaises network_error) Played)
                 = Print ([10] @ str_of ''[ANALYZING] Processing frame...'')
                      # fst (analyze_frame fixture_libs (detector fixture_app) 1
                             (RemoteRaises network_error))
                      @ [Print (str_of ''[WARNING] Analysis error: '' @ str_of ''timed out''),
                         Print (str_of ''AI: Error analyzing the scene.'')]
                      @ said"
      and sd: "enabled (speaker fixture_app) \<longrightarrow>
                 (\<exists>more. said = TtsSay (str_of ''Error analyzing the scene.'') # more)"
    by (elim exE conjE)
  from sd en obtain more where more: "said = TtsSay (str_of ''Error analyzing the scene.'') # more"
    by (elim impE exE)
  have p: "Print (str_of ''AI: Error analyzing the scene.'')
       \<in> set (fst (analyze_and_speak fixture_libs fixture_app 1 (RemoteRaises network_error) Played))"
    unfolding ev by (simp del: str_of_Cons)
  have t: "TtsSay (str_of ''Error analyzing the scene.'')
       \<in> set (fst (analyze_and_speak fixture_libs fixture_app 1 (RemoteRaises network_error) Played))"
    unfolding ev more by (simp del: str_of_Cons)
  have n: "snd (analyze_and_speak fixture_libs fixture_app 1 (RemoteRaises network_error) Played)
             = None"
    using b [THEN conjunct2, THEN conjunct1] ni by simp
  have nq: "\<not> is_quit (- 1)" by (simp add: is_quit_mod)
  have hyp: "t_read (failing_tick 100 (- 1)) = Frame 1
       \<and> t_remote (failing_tick 100 (- 1)) = RemoteRaises network_error
       \<and> t_say (failing_tick 100 (- 1)) = Played
       \<and> t_now (failing_tick 100 (- 1)) - 0 \<ge> interval fixture_app
       \<and> \<not> (enabled (speaker fixture_app) \<and> interrupts Played)
       \<and> t_key (failing_tick 100 (- 1)) = Key (- 1) \<and> \<not> is_quit (- 1)"
    using nq by (simp add: failing_tick_def tick_at_def fixture_app_def)
  from b [THEN conjunct2, THEN conjunct2, THEN mp, OF hyp]
  have l: "snd (loop fixture_libs fixture_app 0 [failing_tick 100 (- 1), tick_at 101 113])
       = snd (loop fixture_libs fixture_app 100 [tick_at 101 113])"
    by (simp add: failing_tick_def tick_at_def)
  from h a p t n nq l show ?thesis by (intro conjI)
qed

section \<open>Rate limiting\<close>

lemma dispatch_times_append [simp]:
  "dispatch_times (xs @ ys) = dispatch_times xs @ dispatch_times ys"
  by (induction xs rule: dispatch_times.induct) simp_all

lemma dispatch_times_playback [simp]:
  "dispatch_times (fst (playback text w :: 'f event list \<times> exc option)) = []"
  by (cases "(text, w)" rule: playback.cases) simp_all

lemma dispatch_times_speak [simp]:
  "dispatch_times (fst (speak sp text p w :: 'f event list \<times> exc option)) = []"
  by (cases "enabled sp") (simp_all add: speak_enabled speak_disabled)

lemma dispatch_times_speak_default [simp]:
  "dispatch_times (fst (speak_default sp text w :: 'f event list \<times> exc option)) = []"
  by (simp add: speak_default_def)

lemma dispatch_times_analyze_frame [simp]:
  "dispatch_times (fst (analyze_frame L d frame w)) = []"
  by (cases "imencode L frame"; cases w) (auto simp: analyze_frame_def Let_def)

lemma dispatch_times_analyze_and_speak [simp]:
  "dispatch_times (fst (analyze_and_speak L a frame wr wt)) = []"
proof (cases "analyze_frame L (detector a) frame wr")
  case (Pair ev r)
  then have ev: "dispatch_times ev = []"
    using dispatch_times_analyze_frame [of L "detector a" frame wr] by simp
  show ?thesis
  proof (cases r)
    case (Inl e)
    with Pair ev show ?thesis
      by (cases e) (simp_all add: analyze_and_speak_def split_beta)
  next
    case (Inr res)
    with Pair ev show ?thesis
      by (simp add: analyze_and_speak_def split_beta)
  qed
qed

lemma dispatch_times_cleanup [simp]: "dispatch_times (cleanup a) = []"
  by (simp add: cleanup_def)

lemma dispatch_times_start_banner [simp]: "dispatch_times (start_banner L a) = []"
  by (simp add: start_banner_def)


lemma iteration_dispatches:
  "(dispatch_times (fst (iteration L a last_analysis tk)) = []
      \<and> fst (snd (iteration L a last_analysis tk)) = last_analysis)
   \<or> (dispatch_times (fst (iteration L a last_analysis tk))
        = [fst (snd (iteration L a last_analysis tk))]
      \<and> last_analysis + interval a \<le> fst (snd (iteration L a last_analysis tk)))"
proof (cases "t_read tk")
  case (Frame frame)
  show ?thesis
  proof (cases "t_now tk - last_analysis \<ge> interval a")
    case True
    with Frame show ?thesis
      unfolding iteration_def
      by (cases "analyze_and_speak L a frame (t_remote tk) (t_say tk)";
          cases "snd (analyze_and_speak L a frame (t_remote tk) (t_say tk))";
          cases "t_key tk";
          cases "speak_default (speaker a) shutdown_notice (t_bye tk) :: 'a event list \<times> exc option";
          cases "snd (speak_default (speaker a) shutdown_notice (t_bye tk) :: 'a event list \<times> exc option)")
         (use dispatch_times_analyze_and_speak [of L a frame "t_remote tk" "t_say tk"]
              dispatch_times_speak_default [of "speaker a" shutdown_notice "t_bye tk", where ?'f = 'a]
          in \<open>simp_all add: Let_def\<close>)
  next
    case False
    with Frame show ?thesis
      unfolding iteration_def
      by (cases "t_key tk";
          cases "speak_default (speaker a) shutdown_notice (t_bye tk) :: 'a event list \<times> exc option";
          cases "snd (speak_default (speaker a) shutdown_notice (t_bye tk) :: 'a event list \<times> exc option)")
         (use dispatch_times_speak_default [of "speaker a" shutdown_notice "t_bye tk", where ?'f = 'a]
          in \<open>simp_all add: Let_def\<close>)
  qed
next
  case NoFrame
  then show ?thesis by (simp add: iteration_def)
next
  case (ReadRaises e)
  then show ?thesis by (simp add: iteration_def)
qed


lemma loop_unfold:
  "loop L a last_analysis (tk # rest) =
     (if snd (snd (iteration L a last_analysis tk)) = Continue
      then (fst (iteration L a last_analysis tk)
              @ fst (loop L a (fst (snd (iteration L a last_analysis tk))) rest),
            snd (loop L a (fst (snd (iteration L a last_analysis tk))) rest))
      else (fst (iteration L a last_analysis tk), snd (snd (iteration L a last_analysis tk))))"
  using loop_stops [of L a last_analysis tk rest] loop_continues [of L a last_analysis tk rest]
  by (cases "snd (snd (iteration L a last_analysis tk)) = Continue") simp_all

lemma loop_dispatch_spacing:
  assumes "0 \<le> interval a"
  shows "sorted_wrt (\<lambda>x y. x + interval a \<le> y) (dispatch_times (fst (loop L a last_analysis ticks)))
       \<and> (\<forall>t\<in>set (dispatch_times (fst (loop L a last_analysis ticks))).
             last_analysis + interval a \<le> t)"
proof (induction ticks arbitrary: last_analysis)
  case Nil
  show ?case by simp
next
  case (Cons tk rest)
  define d where "d = dispatch_times (fst (iteration L a last_analysis tk))"
  define l' where "l' = fst (snd (iteration L a last_analysis tk))"
  define dr where "dr = dispatch_times (fst (loop L a l' rest))"
  have it: "(d = [] \<and> l' = last_analysis) \<or> (d = [l'] \<and> last_analysis + interval a \<le> l')"
    unfolding d_def l'_def by (rule iteration_dispatches)
  have ih: "sorted_wrt (\<lambda>x y. x + interval a \<le> y) dr" "\<forall>t\<in>set dr. l' + interval a \<le> t"
    using Cons.IH [of l'] unfolding dr_def by simp_all
  have both: "sorted_wrt (\<lambda>x y. x + interval a \<le> y) (d @ dr)
       \<and> (\<forall>t\<in>set (d @ dr). last_analysis + interval a \<le> t)"
    using it ih assms by (elim disjE conjE) (auto simp: sorted_wrt_append)
  have alone: "sorted_wrt (\<lambda>x y. x + interval a \<le> y) d
       \<and> (\<forall>t\<in>set d. last_analysis + interval a \<le> t)"
    using it by (elim disjE conjE) simp_all
  show ?case
  proof (cases "snd (snd (iteration L a last_analysis tk)) = Continue")
    case True
    then have "dispatch_times (fst (loop L a last_analysis (tk # rest))) = d @ dr"
      by (simp del: loop.simps add: loop_unfold d_def dr_def l'_def)
    with both show ?thesis by simp
  next
    case False
    then have "dispatch_times (fst (loop L a last_analysis (tk # rest))) = d"
      by (simp del: loop.simps add: loop_unfold d_def)
    with alone show ?thesis by simp
  qed
qed

lemma start_dispatch_times:
  "dispatch_times (fst (start L a opened w_act ticks w_int)) = []
   \<or> dispatch_times (fst (start L a opened w_act ticks w_int))
       = dispatch_times (fst (loop L (a\<lparr>cap := Some (camera_id a)\<rparr>) 0 ticks))"
  unfolding start_def Let_def
  by (cases "speak_default (speaker (a\<lparr>cap := Some (camera_id a)\<rparr>)) activation_notice w_act
               :: 'a event list \<times> exc option";
      cases "loop L (a\<lparr>cap := Some (camera_id a)\<rparr>) 0 ticks";
      cases "speak_default (speaker (a\<lparr>cap := Some (camera_id a)\<rparr>)) (str_of ''System interrupted.'') w_int
               :: 'a event list \<times> exc option")
     (use dispatch_times_speak_default [of "speaker a" activation_notice w_act, where ?'f = 'a]
          dispatch_times_speak_default [of "speaker a" "str_of ''System interrupted.''" w_int, where ?'f = 'a]
      in \<open>auto split: option.splits flow.splits exc.splits\<close>)

lemma fixture_iteration:
  "\<not> is_quit key \<Longrightarrow>
   dispatch_times (fst (iteration fixture_libs (fixture_app\<lparr>cap := c\<rparr>) last_analysis (tick_at now key)))
     = (if now - last_analysis \<ge> 3 then [now] else [])
   \<and> snd (iteration fixture_libs (fixture_app\<lparr>cap := c\<rparr>) last_analysis (tick_at now key))
     = (if now - last_analysis \<ge> 3 then now else last_analysis, Continue)"
  by (simp add: iteration_def tick_at_def fixture_app_def Let_def split_beta
       analyze_and_speak_def analyze_frame_def fixture_libs_def speak_default_def speak_def)

lemma four_seconds_dispatches:
  "dispatch_times (fst (start fixture_libs fixture_app True Played four_seconds Played))
     = [100, 103]"
proof -
  have nq: "\<not> is_quit (- 1)" by (simp add: is_quit_mod)
  note it = fixture_iteration [OF nq]
  have "dispatch_times (fst (loop fixture_libs (fixture_app\<lparr>cap := Some 0\<rparr>) 0 four_seconds))
          = [100, 103]"
    unfolding four_seconds_def
    by (simp del: loop.simps add: loop_unfold it loop.simps(1))
  moreover have "snd (loop fixture_libs (fixture_app\<lparr>cap := Some 0\<rparr>) 0 four_seconds) = Continue"
    unfolding four_seconds_def
    by (simp del: loop.simps add: loop_unfold it loop.simps(1))
  ultimately show ?thesis
    by (cases "loop fixture_libs (fixture_app\<lparr>cap := Some 0\<rparr>) 0 four_seconds")
       (simp add: start_def Let_def split_beta fixture_app_def speak_default_def speak_def)
qed

text \<open>
  C1. Time is the reading of \<^verbatim>\<open>time.time()\<close>, taken as a real number. For a positive
  interval, any two dispatches of a run of \<^verbatim>\<open>start\<close>, finished or still polling, are
  at least the interval apart, measured between the clock readings stored in
  \<^verbatim>\<open>last_analysis\<close> when each dispatch starts. The ticks are arbitrary: any number of
  frames may be read in between, and any analysis may have failed.
\<close>

theorem dispatch_spacing:
  assumes "0 < interval a"
    and "i < j"
    and "j < length (dispatch_times (fst (start L a opened w_act ticks w_int)))"
  shows "dispatch_times (fst (start L a opened w_act ticks w_int)) ! i + interval a
           \<le> dispatch_times (fst (start L a opened w_act ticks w_int)) ! j"
proof -
  let ?a = "a\<lparr>cap := Some (camera_id a)\<rparr>"
  have "0 \<le> interval ?a" using assms(1) by simp
  from loop_dispatch_spacing [OF this, of L 0 ticks]
  have "sorted_wrt (\<lambda>x y. x + interval a \<le> y) (dispatch_times (fst (loop L ?a 0 ticks)))"
    by simp
  with start_dispatch_times [of L a opened w_act ticks w_int]
  have "sorted_wrt (\<lambda>x y. x + interval a \<le> y)
          (dispatch_times (fst (start L a opened w_act ticks w_int)))"
    by (elim disjE) simp_all
  with assms(2,3) show ?thesis
    by (simp only: sorted_wrt_iff_nth_less)
qed

theorem dispatch_spacing_witness:
  "0 < interval fixture_app
   \<and> dispatch_times (fst (start fixture_libs fixture_app True Played four_seconds Played))
       = [100, 103]
   \<and> (100::real) + interval fixture_app \<le> 103"
proof -
  let ?ds = "dispatch_times (fst (start fixture_libs fixture_app True Played four_seconds Played))"
  have h1: "0 < interval fixture_app" by (simp add: fixture_app_def)
  have d: "?ds = [100, 103]" by (rule four_seconds_dispatches)
  have h3: "1 < length ?ds" unfolding d by simp
  have "?ds ! 0 + interval fixture_app \<le> ?ds ! 1"
    by (rule dispatch_spacing [OF h1 zero_less_one h3])
  then have "(100::real) + interval fixture_app \<le> 103"
    unfolding d by simp
  with h1 d show ?thesis by (intro conjI)
qed

section \<open>Shutdown\<close>

lemma no_teardown_Nil [simp]: "no_teardown []"
  by (simp add: no_teardown_def)

lemma no_teardown_Cons [simp]: "no_teardown (e # ev) \<longleftrightarrow> \<not> is_teardown e \<and> no_teardown ev"
  by (simp add: no_teardown_def)

lemma no_teardown_append [simp]: "no_teardown (xs @ ys) \<longleftrightarrow> no_teardown xs \<and> no_teardown ys"
  by (simp add: no_teardown_def)

lemma no_teardown_count:
  "no_teardown ev \<Longrightarrow> is_teardown e \<Longrightarrow> count_list ev e = 0"
  by (induction ev) (auto simp: no_teardown_def)

lemma not_banner [simp]: "c \<noteq> 83 \<Longrightarrow> c # s \<noteq> shutdown_banner"
  by (auto simp: shutdown_banner_def)

lemma rule50_not_banner [simp]: "rule50 \<noteq> shutdown_banner"
  by (simp add: shutdown_banner_def rule50_def eval_nat_numeral)

lemma no_teardown_playback [simp]:
  "no_teardown (fst (playback text w :: 'f event list \<times> exc option))"
  by (cases "(text, w)" rule: playback.cases) simp_all

lemma no_teardown_speak_default [simp]:
  "no_teardown (fst (speak_default sp text w :: 'f event list \<times> exc option))"
  by (cases "enabled sp") (simp_all add: speak_default_def speak_enabled speak_disabled)

lemma no_teardown_analyze_frame [simp]:
  "no_teardown (fst (analyze_frame L d frame w))"
  by (cases "imencode L frame"; cases w) (auto simp: analyze_frame_def Let_def)

lemma no_teardown_analyze_and_speak [simp]:
  "no_teardown (fst (analyze_and_speak L a frame wr wt))"
proof (cases "analyze_frame L (detector a) frame wr")
  case (Pair ev r)
  then have ev: "no_teardown ev"
    using no_teardown_analyze_frame [of L "detector a" frame wr] by simp
  show ?thesis
  proof (cases r)
    case (Inl e)
    with Pair ev show ?thesis
      by (cases e) (simp_all add: analyze_and_speak_def split_beta)
  next
    case (Inr res)
    with Pair ev show ?thesis
      by (simp add: analyze_and_speak_def split_beta)
  qed
qed

lemma no_teardown_start_banner [simp]: "no_teardown (start_banner L a)"
  by (simp add: start_banner_def)


lemma no_teardown_iteration [simp]: "no_teardown (fst (iteration L a last_analysis tk))"
proof (cases "t_read tk")
  case (Frame frame)
  show ?thesis
    using Frame unfolding iteration_def
    by (cases "analyze_and_speak L a frame (t_remote tk) (t_say tk)";
        cases "snd (analyze_and_speak L a frame (t_remote tk) (t_say tk))";
        cases "t_key tk";
        cases "speak_default (speaker a) shutdown_notice (t_bye tk) :: 'a event list \<times> exc option";
        cases "snd (speak_default (speaker a) shutdown_notice (t_bye tk) :: 'a event list \<times> exc option)")
       (use no_teardown_analyze_and_speak [of L a frame "t_remote tk" "t_say tk"]
            no_teardown_speak_default [of "speaker a" shutdown_notice "t_bye tk", where ?'f = 'a]
        in \<open>simp_all add: Let_def\<close>)
next
  case NoFrame
  then show ?thesis by (simp add: iteration_def)
next
  case (ReadRaises e)
  then show ?thesis by (simp add: iteration_def)
qed

lemma no_teardown_loop [simp]: "no_teardown (fst (loop L a last_analysis ticks))"
proof (induction ticks arbitrary: last_analysis)
  case Nil
  show ?case by simp
next
  case (Cons tk rest)
  show ?case
    using Cons.IH [of "fst (snd (iteration L a last_analysis tk))"]
    by (simp del: loop.simps add: loop_unfold)
qed

text \<open>A pass lets the loop go on only after a frame was read and a key other than
  the quit key was seen.\<close>

lemma iteration_Continue:
  assumes "snd (snd (iteration L a last_analysis tk)) = Continue"
  shows "(\<exists>frame. t_read tk = Frame frame) \<and> (\<exists>k. t_key tk = Key k \<and> \<not> is_quit k)"
proof (cases "t_read tk")
  case (Frame frame)
  show ?thesis
    using Frame assms unfolding iteration_def
    by (cases "analyze_and_speak L a frame (t_remote tk) (t_say tk)";
        cases "snd (analyze_and_speak L a frame (t_remote tk) (t_say tk))";
        cases "t_key tk";
        cases "speak_default (speaker a) shutdown_notice (t_bye tk) :: 'a event list \<times> exc option";
        cases "snd (speak_default (speaker a) shutdown_notice (t_bye tk) :: 'a event list \<times> exc option)")
       (simp_all add: Let_def split: if_splits)
next
  case NoFrame
  with assms show ?thesis by (simp add: iteration_def)
next
  case (ReadRaises e)
  with assms show ?thesis by (simp add: iteration_def)
qed

lemma loop_Continue:
  "snd (loop L a last_analysis ticks) = Continue \<Longrightarrow>
     \<forall>tk\<in>set ticks. (\<exists>frame. t_read tk = Frame frame) \<and> (\<exists>k. t_key tk = Key k \<and> \<not> is_quit k)"
proof (induction ticks arbitrary: last_analysis)
  case Nil
  show ?case by simp
next
  case (Cons tk rest)
  from Cons.prems have c: "snd (snd (iteration L a last_analysis tk)) = Continue"
    by (simp del: loop.simps add: loop_unfold split: if_splits)
  with Cons.prems have "snd (loop L a (fst (snd (iteration L a last_analysis tk))) rest) = Continue"
    by (simp del: loop.simps add: loop_unfold)
  from Cons.IH [OF this] iteration_Continue [OF c] show ?case by simp
qed

lemma cleanup_opened: "cleanup (a\<lparr>cap := Some c\<rparr>) = teardown_events"
  by (simp add: cleanup_def teardown_events_def shutdown_banner_def)

lemma start_exit:
  fixes L :: "'f libs"
  assumes "opened"
    and "snd (speak_default (speaker a) activation_notice w_act :: 'f event list \<times> exc option) = None"
    and "snd (start L a opened w_act ticks w_int) \<noteq> Unfinished"
  shows "\<exists>pre. fst (start L a opened w_act ticks w_int) = pre @ teardown_events
               \<and> no_teardown pre"
proof -
  let ?a = "a\<lparr>cap := Some (camera_id a)\<rparr>"
  obtain ev :: "'f event list"
    where act: "speak_default (speaker a) activation_notice w_act = (ev, None)"
    using assms(2) by (cases "speak_default (speaker a) activation_notice w_act :: 'f event list \<times> exc option") simp
  have nev: "no_teardown ev"
    using no_teardown_speak_default [of "speaker a" activation_notice w_act, where ?'f = 'f]
    by (simp add: act)
  obtain evl fl where lp: "loop L ?a 0 ticks = (evl, fl)"
    by (cases "loop L ?a 0 ticks")
  have nevl: "no_teardown evl"
    using no_teardown_loop [of L ?a 0 ticks] by (simp add: lp)
  obtain evi :: "'f event list" and ri
    where int: "speak_default (speaker a) (str_of ''System interrupted.'') w_int = (evi, ri)"
    by (cases "speak_default (speaker a) (str_of ''System interrupted.'') w_int :: 'f event list \<times> exc option")
  have nevi: "no_teardown evi"
    using no_teardown_speak_default [of "speaker a" "str_of ''System interrupted.''" w_int, where ?'f = 'f]
    by (simp only: int fst_conv)
  let ?before = "VideoCapture (camera_id a) # start_banner L ?a @ ev"
  have nb: "no_teardown ?before" using nev by simp
  show ?thesis
  proof (cases fl)
    case Continue
    with assms(1,3) act lp show ?thesis
      by (simp add: start_def Let_def)
  next
    case Break
    with assms(1) act lp have "fst (start L a opened w_act ticks w_int)
        = (?before @ evl) @ teardown_events"
      by (simp add: start_def Let_def cleanup_opened)
    moreover have "no_teardown (?before @ evl)" using nev nevl by simp
    ultimately show ?thesis by (intro exI conjI)
  next
    case (Raise e)
    show ?thesis
    proof (cases e)
      case (PyException c m)
      with Raise assms(1) act lp have "fst (start L a opened w_act ticks w_int)
          = (?before @ evl) @ teardown_events"
        by (simp add: start_def Let_def cleanup_opened)
      moreover have "no_teardown (?before @ evl)" using nev nevl by simp
      ultimately show ?thesis by (intro exI conjI)
    next
      case KeyboardInterrupt
      with Raise assms(1) act lp int have "fst (start L a opened w_act ticks w_int)
          = (?before @ evl @ Print ([10] @ str_of ''[INTERRUPTED] User stopped the system'') # evi)
            @ teardown_events"
        by (simp add: start_def Let_def cleanup_opened del: str_of_Cons)
      moreover have "no_teardown (?before @ evl
            @ Print ([10] @ str_of ''[INTERRUPTED] User stopped the system'') # evi)"
        using nev nevl nevi by simp
      ultimately show ?thesis by (intro exI conjI)
    qed
  qed
qed


lemma teardown_counts:
  assumes "no_teardown pre"
  shows "count_list (pre @ teardown_events) CapRelease = 1"
    and "count_list (pre @ teardown_events) DestroyAllWindows = 1"
    and "count_list (pre @ teardown_events) (Print (str_of ''SYSTEM SHUTDOWN COMPLETE'')) = 1"
proof -
  have b: "Print (str_of ''SYSTEM SHUTDOWN COMPLETE'') = Print shutdown_banner"
    by (simp only: shutdown_banner_def)
  have "count_list pre CapRelease = 0" "count_list pre DestroyAllWindows = 0"
    "count_list pre (Print shutdown_banner) = 0"
    using assms by (simp_all add: no_teardown_count)
  moreover have "count_list teardown_events CapRelease = 1"
    "count_list teardown_events DestroyAllWindows = 1"
    "count_list (teardown_events :: 'a event list) (Print shutdown_banner) = 1"
    unfolding teardown_events_def b by simp_all
  ultimately show "count_list (pre @ teardown_events) CapRelease = 1"
    and "count_list (pre @ teardown_events) DestroyAllWindows = 1"
    and "count_list (pre @ teardown_events) (Print (str_of ''SYSTEM SHUTDOWN COMPLETE'')) = 1"
    unfolding b by simp_all
qed

lemma start_finishes:
  fixes L :: "'f libs"
  assumes "opened"
    and "snd (speak_default (speaker a) activation_notice w_act :: 'f event list \<times> exc option) = None"
    and "\<exists>tk\<in>set ticks. exiting tk"
  shows "snd (start L a opened w_act ticks w_int) \<noteq> Unfinished"
proof
  let ?a = "a\<lparr>cap := Some (camera_id a)\<rparr>"
  assume u: "snd (start L a opened w_act ticks w_int) = Unfinished"
  obtain ev :: "'f event list"
    where act: "speak_default (speaker a) activation_notice w_act = (ev, None)"
    using assms(2) by (cases "speak_default (speaker a) activation_notice w_act :: 'f event list \<times> exc option") simp
  have "snd (loop L ?a 0 ticks) = Continue"
    using u assms(1) act
    by (cases "loop L ?a 0 ticks")
       (auto simp: start_def Let_def split_beta split: flow.splits exc.splits option.splits)
  from loop_Continue [OF this] assms(3) show False
    by (auto simp: exiting_def)
qed

text \<open>
  C2 (as amended). Once the camera is open and the activation notice has been spoken,
  every way out of the loop goes through \<^verbatim>\<open>cleanup\<close>: a tick with the quit key, a
  failed frame read or an interruption ends the run, and the trace of every run that
  has ended finishes with the events of \<^verbatim>\<open>cleanup\<close>, which are the only release of the
  camera, the only closing of the display and the only shutdown banner of the trace.
  When the camera cannot be opened, \<^verbatim>\<open>start\<close> returns before the guarded block and none
  of these events occurs.
\<close>

theorem cleanup_on_exit:
  fixes L :: "'f libs"
  shows "(opened \<and> snd (speak_default (speaker a) activation_notice w_act
                        :: 'f event list \<times> exc option) = None \<longrightarrow>
            ((\<exists>tk\<in>set ticks. exiting tk) \<longrightarrow>
               snd (start L a opened w_act ticks w_int) \<noteq> Unfinished)
          \<and> (snd (start L a opened w_act ticks w_int) \<noteq> Unfinished \<longrightarrow>
               (\<exists>pre. fst (start L a opened w_act ticks w_int)
                         = pre @ [CapRelease, DestroyAllWindows, Print ([10] @ rule50),
                                  Print (str_of ''SYSTEM SHUTDOWN COMPLETE''), Print rule50]
                      \<and> no_teardown pre)
               \<and> count_list (fst (start L a opened w_act ticks w_int)) CapRelease = 1
               \<and> count_list (fst (start L a opened w_act ticks w_int)) DestroyAllWindows = 1
               \<and> count_list (fst (start L a opened w_act ticks w_int))
                    (Print (str_of ''SYSTEM SHUTDOWN COMPLETE'')) = 1))
       \<and> (\<not> opened \<longrightarrow>
             snd (start L a opened w_act ticks w_int) = Returns
             \<and> no_teardown (fst (start L a opened w_act ticks w_int)))"
proof (intro conjI impI)
  assume "\<not> opened"
  then show "snd (start L a opened w_act ticks w_int) = Returns"
    and "no_teardown (fst (start L a opened w_act ticks w_int))"
    by (simp_all add: start_def Let_def)
next
  assume h: "opened \<and> snd (speak_default (speaker a) activation_notice w_act
                        :: 'f event list \<times> exc option) = None"
  then have o: opened
    and n: "snd (speak_default (speaker a) activation_notice w_act
                        :: 'f event list \<times> exc option) = None"
    by simp_all
  {
    assume "\<exists>tk\<in>set ticks. exiting tk"
    then show "snd (start L a opened w_act ticks w_int) \<noteq> Unfinished"
      by (rule start_finishes [OF o n])
  }
  assume f: "snd (start L a opened w_act ticks w_int) \<noteq> Unfinished"
  from start_exit [OF o n f] obtain pre
    where pre: "fst (start L a opened w_act ticks w_int) = pre @ teardown_events"
      and q: "no_teardown pre"
    by (elim exE conjE)
  from pre q show "\<exists>pre. fst (start L a opened w_act ticks w_int)
                         = pre @ [CapRelease, DestroyAllWindows, Print ([10] @ rule50),
                                  Print (str_of ''SYSTEM SHUTDOWN COMPLETE''), Print rule50]
                      \<and> no_teardown pre"
    unfolding teardown_events_def by (intro exI conjI)
  show "count_list (fst (start L a opened w_act ticks w_int)) CapRelease = 1"
    unfolding pre by (rule teardown_counts [OF q])
  show "count_list (fst (start L a opened w_act ticks w_int)) DestroyAllWindows = 1"
    unfolding pre by (rule teardown_counts [OF q])
  show "count_list (fst (start L a opened w_act ticks w_int))
                    (Print (str_of ''SYSTEM SHUTDOWN COMPLETE'')) = 1"
    unfolding pre by (rule teardown_counts [OF q])
qed


theorem cleanup_on_exit_witness:
  "snd (speak_default (speaker fixture_app) activation_notice Played
          :: nat event list \<times> exc option) = None
   \<and> (\<exists>tk\<in>set quit_run. exiting tk)
   \<and> (\<exists>tk\<in>set read_failure_run. exiting tk)
   \<and> (\<exists>tk\<in>set interrupted_run. exiting tk)
   \<and> count_list (fst (start fixture_libs fixture_app True Played quit_run Played)) CapRelease = 1
   \<and> count_list (fst (start fixture_libs fixture_app True Played read_failure_run Played))
        CapRelease = 1
   \<and> count_list (fst (start fixture_libs fixture_app True Played interrupted_run Played))
        CapRelease = 1
   \<and> count_list (fst (start fixture_libs fixture_app True Played interrupted_run Played))
        (Print (str_of ''SYSTEM SHUTDOWN COMPLETE'')) = 1
   \<and> snd (start fixture_libs fixture_app False Played quit_run Played) = Returns"
proof -
  have n: "snd (speak_default (speaker fixture_app) activation_notice Played
          :: nat event list \<times> exc option) = None"
    by (simp add: speak_default_def speak_def fixture_app_def)
  then have h: "True \<and> snd (speak_default (speaker fixture_app) activation_notice Played
          :: nat event list \<times> exc option) = None"
    by simp
  have q: "is_quit 113" by (simp add: is_quit_mod)
  have e1: "\<exists>tk\<in>set quit_run. exiting tk"
    using q by (simp add: quit_run_def exiting_def tick_at_def)
  have e2: "\<exists>tk\<in>set read_failure_run. exiting tk"
    by (simp add: read_failure_run_def exiting_def tick_at_def)
  have e3: "\<exists>tk\<in>set interrupted_run. exiting tk"
    by (simp add: interrupted_run_def exiting_def tick_at_def)
  note t1 = cleanup_on_exit [where L = fixture_libs and a = fixture_app and opened = True
      and w_act = Played and w_int = Played and ticks = quit_run,
      THEN conjunct1, THEN mp, OF h]
  note t2 = cleanup_on_exit [where L = fixture_libs and a = fixture_app and opened = True
      and w_act = Played and w_int = Played and ticks = read_failure_run,
      THEN conjunct1, THEN mp, OF h]
  note t3 = cleanup_on_exit [where L = fixture_libs and a = fixture_app and opened = True
      and w_act = Played and w_int = Played and ticks = interrupted_run,
      THEN conjunct1, THEN mp, OF h]
  note f1 = t1 [THEN conjunct1, THEN mp, OF e1]
  note f2 = t2 [THEN conjunct1, THEN mp, OF e2]
  note f3 = t3 [THEN conjunct1, THEN mp, OF e3]
  note c1 = t1 [THEN conjunct2, THEN mp, OF f1]
  note c2 = t2 [THEN conjunct2, THEN mp, OF f2]
  note c3 = t3 [THEN conjunct2, THEN mp, OF f3]
  have r: "snd (start fixture_libs fixture_app False Played quit_run Played) = Returns"
    using cleanup_on_exit [where L = fixture_libs and a = fixture_app and opened = False
      and w_act = Played and w_int = Played and ticks = quit_run, THEN conjunct2]
    by simp
  from n e1 e2 e3 c1 [THEN conjunct2, THEN conjunct1] c2 [THEN conjunct2, THEN conjunct1]
    c3 [THEN conjunct2, THEN conjunct1]
    c3 [THEN conjunct2, THEN conjunct2, THEN conjunct2] r
  show ?thesis by (intro conjI)
qed

theorem camera_failure_counterexample:
  "snd (start fixture_libs fixture_app False Played quit_run Played) = Returns
   \<and> CapRelease \<notin> set (fst (start fixture_libs fixture_app False Played quit_run Played))
   \<and> DestroyAllWindows \<notin> set (fst (start fixture_libs fixture_app False Played quit_run Played))
   \<and> Print (str_of ''SYSTEM SHUTDOWN COMPLETE'')
        \<notin> set (fst (start fixture_libs fixture_app False Played quit_run Played))"
  by (simp add: start_def Let_def)

end
